theory Spec2Isabelle
  imports Complex_Main "HOL-Library.AList"
begin

section \<open>Data model of the GHG calculator (src/app.py)\<close>

text \<open>
  A Python \<open>dict\<close> is an association list in insertion order; the keys of a real
  dict are pairwise distinct. Quantities and emission factors are numbers; the model
  computes with them in exact rational arithmetic (the rounding of Python's binary
  floating point is not modelled). The only exception the core raises is
  \<open>KeyError\<close>, which carries the missing key.
\<close>

type_synonym 'v dict = "(string \<times> 'v) list"

type_synonym quantities = "rat dict"

type_synonym quantity_input = "quantities dict"

datatype error = KeyError string

text \<open>\<open>d[k]\<close>: raises \<open>KeyError\<close> when the key is missing.\<close>

definition getitem :: "'v dict \<Rightarrow> string \<Rightarrow> error + 'v" where
  "getitem d k = (case map_of d k of None \<Rightarrow> Inl (KeyError k) | Some v \<Rightarrow> Inr v)"

text \<open>\<open>d.get(k, default)\<close>: never raises.\<close>

definition get_default :: "'v dict \<Rightarrow> string \<Rightarrow> 'v \<Rightarrow> 'v" where
  "get_default d k dflt = (case map_of d k of None \<Rightarrow> dflt | Some v \<Rightarrow> v)"

text \<open>\<open>k in d\<close>.\<close>

definition contains :: "'v dict \<Rightarrow> string \<Rightarrow> bool" where
  "contains d k = (map_of d k \<noteq> None)"

section \<open>The emission factor table\<close>

definition EMISSION_FACTORS :: "quantities dict" where
  "EMISSION_FACTORS =
    [(''livestock'',
        [(''Beef Cow'', 99.0), (''Dairy Cow'', 102.0), (''Buffalo'', 107.0), (''Chicken'', 6.0),
         (''Pigs'', 21.0), (''Sheep'', 15.0), (''Goats'', 15.0), (''Camels'', 84.0),
         (''Horses'', 56.0)]),
     (''crops'',
        [(''Wheat'', 0.69), (''Barley'', 0.54), (''Maize'', 0.77), (''Oats'', 0.64),
         (''Rye'', 0.68), (''Rice'', 1.50), (''Millet'', 0.67), (''Sorghum'', 0.61),
         (''Pasture'', 0.15), (''Peas'', 0.45), (''Beans'', 0.62), (''Soybeans'', 0.62),
         (''Potatoes'', 0.43), (''Feedbeet'', 0.47), (''Sugarcane'', 0.73),
         (''Peanuts'', 0.80)]),
     (''fertilizer'',
        [(''Urea'', 1.87), (''Lime'', 0.61), (''Gypsum'', 0.10), (''Animal Manure'', 0.20),
         (''Organic Compost'', 0.20), (''Filter Cake'', 0.25), (''Vinasse'', 0.10)]),
     (''fuel'',
        [(''Diesel Oil'', 2.68), (''Gasoline'', 2.31), (''Biodiesel'', 1.83),
         (''Anhydrous Ethanol'', 1.50), (''Hydrated Ethanol'', 1.44),
         (''Natural Gas'', 2.75)]),
     (''electricity'',
        [(''Solar'', 0.05), (''Wind'', 0.03), (''Hydropower'', 0.02)])]"

definition get_emission_factors :: "quantities dict" where
  "get_emission_factors = EMISSION_FACTORS"

section \<open>Total emissions\<close>

definition calculate_emissions :: "rat \<Rightarrow> rat \<Rightarrow> rat" where
  "calculate_emissions quantity factor = quantity * factor"

text \<open>
  The sum over the generator of one category,
  \<open>sum(calculate_emissions(quantity, factors[category].get(item, 0))
        for item, quantity in items.items())\<close>:
  \<open>sum\<close> starts at 0 and adds the terms from left to right. The subscript
  \<open>factors[category]\<close> is part of the term, so it is evaluated once per item, and not
  at all when the category has no items.
\<close>

fun sum_emissions :: "quantities dict \<Rightarrow> string \<Rightarrow> quantities \<Rightarrow> rat \<Rightarrow> error + rat" where
  "sum_emissions factors category [] acc = Inr acc"
| "sum_emissions factors category ((item, quantity) # rest) acc =
     (case getitem factors category of
        Inl err \<Rightarrow> Inl err
      | Inr factor_dict \<Rightarrow>
          sum_emissions factors category rest
            (acc + calculate_emissions quantity (get_default factor_dict item 0)))"

text \<open>
  The dict comprehension over \<open>data.items()\<close>, with \<open>factors\<close> the table returned by
  \<open>get_emission_factors\<close>: the entries are evaluated in order, and the first exception
  ends the comprehension.
\<close>

fun total_emissions_loop :: "quantities dict \<Rightarrow> quantity_input \<Rightarrow> error + rat dict" where
  "total_emissions_loop factors [] = Inr []"
| "total_emissions_loop factors ((category, items) # rest) =
     (case sum_emissions factors category items 0 of
        Inl err \<Rightarrow> Inl err
      | Inr category_sum \<Rightarrow>
          (case total_emissions_loop factors rest of
             Inl err \<Rightarrow> Inl err
           | Inr emissions \<Rightarrow> Inr ((category, category_sum) # emissions)))"

definition calculate_total_emissions :: "quantity_input \<Rightarrow> error + rat dict" where
  "calculate_total_emissions data = total_emissions_loop get_emission_factors data"

section \<open>The per-item comparison series\<close>

text \<open>
  \<open>plot_comparison_chart\<close> fills three lists and draws them; the model returns the
  lists. The local function \<open>add_emissions\<close> appends to them for every item of one
  category and reads the factor with \<open>factor_dict[item]\<close>.
\<close>

record comparison =
  labels :: "string list"
  traditional_values :: "rat list"
  reduced_values :: "rat list"

fun add_emissions :: "quantities \<Rightarrow> quantities \<Rightarrow> comparison \<Rightarrow> error + comparison" where
  "add_emissions [] factor_dict s = Inr s"
| "add_emissions ((item, quantity) # rest) factor_dict s =
     (case getitem factor_dict item of
        Inl err \<Rightarrow> Inl err
      | Inr factor \<Rightarrow>
          (let annual_emissions = calculate_emissions quantity factor;
               reduced_emissions = annual_emissions * 0.8
           in add_emissions rest factor_dict
                \<lparr>labels = labels s @ [item],
                 traditional_values = traditional_values s @ [annual_emissions],
                 reduced_values = reduced_values s @ [reduced_emissions]\<rparr>))"

text \<open>
  \<open>for category in factors: add_emissions(data[category], factors[category])\<close>; the
  loop runs over the entries of the table, so \<open>factors[category]\<close> is the entry's value.
\<close>

fun comparison_loop :: "quantities dict \<Rightarrow> quantity_input \<Rightarrow> comparison \<Rightarrow> error + comparison" where
  "comparison_loop [] data s = Inr s"
| "comparison_loop ((category, factor_dict) # rest) data s =
     (case getitem data category of
        Inl err \<Rightarrow> Inl err
      | Inr type_dict \<Rightarrow>
          (case add_emissions type_dict factor_dict s of
             Inl err \<Rightarrow> Inl err
           | Inr s' \<Rightarrow> comparison_loop rest data s'))"

definition plot_comparison_chart :: "quantity_input \<Rightarrow> error + comparison" where
  "plot_comparison_chart data =
     comparison_loop get_emission_factors data
       \<lparr>labels = [], traditional_values = [], reduced_values = []\<rparr>"

section \<open>The decade projection\<close>

record prediction =
  traditional :: "rat list"
  reduced :: "rat list"

definition years :: "nat list" where
  "years = [2024..<2034]"

text \<open>
  The sum of the five category totals; the subscripts are evaluated from left to
  right, each raising \<open>KeyError\<close> when the category has no total.
\<close>

definition base_total :: "rat dict \<Rightarrow> error + rat" where
  "base_total base_emissions =
     (case getitem base_emissions ''livestock'' of Inl err \<Rightarrow> Inl err | Inr l \<Rightarrow>
     (case getitem base_emissions ''crops'' of Inl err \<Rightarrow> Inl err | Inr c \<Rightarrow>
     (case getitem base_emissions ''fertilizer'' of Inl err \<Rightarrow> Inl err | Inr f \<Rightarrow>
     (case getitem base_emissions ''fuel'' of Inl err \<Rightarrow> Inl err | Inr u \<Rightarrow>
     (case getitem base_emissions ''electricity'' of Inl err \<Rightarrow> Inl err | Inr e \<Rightarrow>
        Inr (l + c + f + u + e))))))"

text \<open>
  The loop \<open>for _ in range(1, len(years))\<close>: each round appends the last element
  times 1.05 to both lists. Both lists are non-empty when the loop starts.
\<close>

fun grow :: "nat \<Rightarrow> rat list \<times> rat list \<Rightarrow> rat list \<times> rat list" where
  "grow 0 s = s"
| "grow (Suc n) (traditional_emissions, reduced_emissions) =
     grow n (traditional_emissions @ [last traditional_emissions * 1.05],
             reduced_emissions @ [last reduced_emissions * 1.05])"

text \<open>The body of \<open>predict_future_emissions\<close> once the base total is known.\<close>

definition project :: "rat \<Rightarrow> prediction" where
  "project base =
     (let traditional_emissions = [base];
          reduced_emissions = map (\<lambda>e. e * 0.8) traditional_emissions;
          (t, r) = grow (length years - 1) (traditional_emissions, reduced_emissions)
      in \<lparr>traditional = t, reduced = r\<rparr>)"

definition predict_future_emissions :: "quantity_input \<Rightarrow> error + prediction" where
  "predict_future_emissions data =
     (case calculate_total_emissions data of
        Inl err \<Rightarrow> Inl err
      | Inr base_emissions \<Rightarrow>
          (case base_total base_emissions of
             Inl err \<Rightarrow> Inl err
           | Inr base \<Rightarrow> Inr (project base)))"

section \<open>Recommendations\<close>

text \<open>
  The five blocks of \<open>generate_recommendations\<close> have the same shape and differ in the
  category key, the header line and the line appended for an item; the table lists them
  in the order of the source. Two of the lines interpolate the item's name.
\<close>

definition recommendation_blocks :: "(string \<times> string \<times> (string \<Rightarrow> string)) list" where
  "recommendation_blocks =
    [(''livestock'', ''### Recommendations for Livestock'',
        \<lambda>animal. ''- Consider improving feed efficiency and manure management for '' @ animal
                 @ ''. This can help reduce methane emissions.''),
     (''crops'', ''### Recommendations for Crops'',
        \<lambda>crop. ''- Optimize fertilizer use and adopt precision agriculture techniques for ''
               @ crop @ '' to minimize emissions.''),
     (''fertilizer'', ''### Recommendations for Fertilizers'',
        \<lambda>fertilizer. ''- Use fertilizers like Organic Compost or Filter Cake to reduce emissions compared to conventional options.''),
     (''fuel'', ''### Recommendations for Fuel'',
        \<lambda>fuel. ''- Switch to cleaner fuels like Biodiesel or reduce reliance on Diesel Oil to lower emissions.''),
     (''electricity'', ''### Recommendations for Electricity'',
        \<lambda>source. ''- Increase the use of renewable energy sources such as Solar or Wind to reduce emissions from electricity consumption.'')]"

text \<open>
  \<open>for item, quantity in data[key].items(): if quantity > 0: recommendations.append(line)\<close>
\<close>

fun recommend_items :: "(string \<Rightarrow> string) \<Rightarrow> quantities \<Rightarrow> string list \<Rightarrow> string list" where
  "recommend_items line [] recommendations = recommendations"
| "recommend_items line ((item, quantity) # rest) recommendations =
     recommend_items line rest
       (if quantity > 0 then recommendations @ [line item] else recommendations)"

text \<open>
  One block: \<open>if key in data and data[key]:\<close> (a dict is true when it is not empty),
  the header is appended and then the lines of the items.
\<close>

definition recommend_category ::
  "quantity_input \<Rightarrow> string list \<Rightarrow> string \<times> string \<times> (string \<Rightarrow> string) \<Rightarrow> string list" where
  "recommend_category data recommendations block =
     (case block of (key, header, line) \<Rightarrow>
        if contains data key \<and> get_default data key [] \<noteq> []
        then recommend_items line (get_default data key []) (recommendations @ [header])
        else recommendations)"

definition generate_recommendations :: "quantity_input \<Rightarrow> string list" where
  "generate_recommendations data = foldl (recommend_category data) [] recommendation_blocks"

section \<open>The categories of the table\<close>

text \<open>The fixed set of categories is the key set of the emission factor table.\<close>

definition categories :: "string list" where
  "categories = map fst EMISSION_FACTORS"

section \<open>The total of one category, in closed form\<close>

text \<open>
  The sum of quantity times factor over the items of a category whose factor table is
  \<open>factor_dict\<close>, an item without a factor counting with the factor 0. The loop
  \<open>sum_emissions\<close> is compared with it below.
\<close>

definition category_total :: "quantities \<Rightarrow> quantities \<Rightarrow> rat" where
  "category_total factor_dict items =
     sum_list (map (\<lambda>(item, quantity).
        calculate_emissions quantity (get_default factor_dict item 0)) items)"

section \<open>The lines of one category, as a list comprehension\<close>

text \<open>
  What one block of \<open>generate_recommendations\<close> is expected to contribute, written
  without the loop and its accumulator: nothing when the category is absent or its item
  mapping is empty, and otherwise the header followed by one line for every item with a
  positive quantity, in the order of the items. The loop of the source is compared with
  this description below.
\<close>

definition category_lines ::
  "quantity_input \<Rightarrow> string \<times> string \<times> (string \<Rightarrow> string) \<Rightarrow> string list" where
  "category_lines data block =
     (case block of (key, header, line) \<Rightarrow>
        (case map_of data key of
           None \<Rightarrow> []
         | Some items \<Rightarrow>
             if items = [] then []
             else header # map (\<lambda>(item, quantity). line item)
                             (filter (\<lambda>(item, quantity). quantity > 0) items)))"

section \<open>The operations on a store of objects\<close>

text \<open>
  To state what an operation does to the objects it is given, the operations are modelled
  a second time with Python's objects made explicit. A dict or a list is an object at an
  address of the store, and a variable or a container holds a reference to it; numbers
  and strings are immutable values. Allocation appends a new object to the store;
  \<open>append\<close> and item assignment update the object at an address in place. The
  functions follow the source statement by statement, as the functions above do. The
  reads of the source (subscripts, \<open>.get\<close>, \<open>.items()\<close>, \<open>in\<close>, truth of a dict)
  read the store; a value of the wrong kind raises \<open>TypeError\<close>.
\<close>

type_synonym addr = nat

datatype val = Num rat | Str string | Ref addr

datatype obj = Dict "val dict" | List "val list"

type_synonym store = "obj list"

datatype store_error = Store_KeyError string | Store_TypeError | Store_IndexError

text \<open>A dict display, a list display or a comprehension creates a new object.\<close>

definition alloc :: "obj \<Rightarrow> store \<Rightarrow> addr \<times> store" where
  "alloc ob s = (length s, s @ [ob])"

text \<open>Reading the object behind a value.\<close>

definition load_dict :: "store \<Rightarrow> val \<Rightarrow> store_error + val dict" where
  "load_dict s v =
     (case v of
        Ref a \<Rightarrow>
          (if a < length s
           then (case s ! a of Dict d \<Rightarrow> Inr d | List xs \<Rightarrow> Inl Store_TypeError)
           else Inl Store_TypeError)
      | Num q \<Rightarrow> Inl Store_TypeError
      | Str t \<Rightarrow> Inl Store_TypeError)"

definition load_list :: "store \<Rightarrow> val \<Rightarrow> store_error + val list" where
  "load_list s v =
     (case v of
        Ref a \<Rightarrow>
          (if a < length s
           then (case s ! a of List xs \<Rightarrow> Inr xs | Dict d \<Rightarrow> Inl Store_TypeError)
           else Inl Store_TypeError)
      | Num q \<Rightarrow> Inl Store_TypeError
      | Str t \<Rightarrow> Inl Store_TypeError)"

definition load_num :: "val \<Rightarrow> store_error + rat" where
  "load_num v = (case v of Num q \<Rightarrow> Inr q | Str t \<Rightarrow> Inl Store_TypeError | Ref a \<Rightarrow> Inl Store_TypeError)"

text \<open>\<open>d[k]\<close> on the entries of a dict.\<close>

definition subscript :: "val dict \<Rightarrow> string \<Rightarrow> store_error + val" where
  "subscript d k = (case map_of d k of None \<Rightarrow> Inl (Store_KeyError k) | Some v \<Rightarrow> Inr v)"

text \<open>\<open>xs.append(v)\<close> and \<open>d[k] = v\<close>: the object is updated in place.\<close>

definition list_append :: "val \<Rightarrow> val \<Rightarrow> store \<Rightarrow> store_error + store" where
  "list_append target v s =
     (case target of
        Ref a \<Rightarrow>
          (if a < length s
           then (case s ! a of
                   List xs \<Rightarrow> Inr (s[a := List (xs @ [v])])
                 | Dict d \<Rightarrow> Inl Store_TypeError)
           else Inl Store_TypeError)
      | Num q \<Rightarrow> Inl Store_TypeError
      | Str t \<Rightarrow> Inl Store_TypeError)"

definition dict_setitem :: "val \<Rightarrow> string \<Rightarrow> val \<Rightarrow> store \<Rightarrow> store_error + store" where
  "dict_setitem target k v s =
     (case target of
        Ref a \<Rightarrow>
          (if a < length s
           then (case s ! a of
                   Dict d \<Rightarrow> Inr (s[a := Dict (AList.update k v d)])
                 | List xs \<Rightarrow> Inl Store_TypeError)
           else Inl Store_TypeError)
      | Num q \<Rightarrow> Inl Store_TypeError
      | Str t \<Rightarrow> Inl Store_TypeError)"

subsection \<open>Total emissions\<close>

definition calculate_emissions_store :: "val \<Rightarrow> val \<Rightarrow> store \<Rightarrow> (store_error + val) \<times> store" where
  "calculate_emissions_store quantity factor s =
     (case load_num quantity of
        Inl err \<Rightarrow> (Inl err, s)
      | Inr q \<Rightarrow>
          (case load_num factor of
             Inl err \<Rightarrow> (Inl err, s)
           | Inr f \<Rightarrow> (Inr (Num (q * f)), s)))"

fun sum_emissions_store ::
  "val \<Rightarrow> string \<Rightarrow> val dict \<Rightarrow> rat \<Rightarrow> store \<Rightarrow> (store_error + rat) \<times> store" where
  "sum_emissions_store factors category [] acc s = (Inr acc, s)"
| "sum_emissions_store factors category ((item, quantity) # rest) acc s =
     (case load_dict s factors of
        Inl err \<Rightarrow> (Inl err, s)
      | Inr table \<Rightarrow>
     (case subscript table category of
        Inl err \<Rightarrow> (Inl err, s)
      | Inr factor_ref \<Rightarrow>
     (case load_dict s factor_ref of
        Inl err \<Rightarrow> (Inl err, s)
      | Inr factor_dict \<Rightarrow>
     (case calculate_emissions_store quantity (get_default factor_dict item (Num 0)) s of
        (Inl err, s1) \<Rightarrow> (Inl err, s1)
      | (Inr e, s1) \<Rightarrow>
     (case load_num e of
        Inl err \<Rightarrow> (Inl err, s1)
      | Inr x \<Rightarrow> sum_emissions_store factors category rest (acc + x) s1)))))"

fun total_emissions_loop_store ::
  "val \<Rightarrow> val dict \<Rightarrow> val \<Rightarrow> store \<Rightarrow> (store_error + unit) \<times> store" where
  "total_emissions_loop_store factors [] emissions s = (Inr (), s)"
| "total_emissions_loop_store factors ((category, items) # rest) emissions s =
     (case load_dict s items of
        Inl err \<Rightarrow> (Inl err, s)
      | Inr item_list \<Rightarrow>
     (case sum_emissions_store factors category item_list 0 s of
        (Inl err, s1) \<Rightarrow> (Inl err, s1)
      | (Inr category_sum, s1) \<Rightarrow>
     (case dict_setitem emissions category (Num category_sum) s1 of
        Inl err \<Rightarrow> (Inl err, s1)
      | Inr s2 \<Rightarrow> total_emissions_loop_store factors rest emissions s2)))"

text \<open>
  \<open>get_emission_factors\<close> returns the table object itself, at the address \<open>table\<close>
  of the global variable, not a copy. The comprehension creates the result dict and
  stores one entry per category in it.
\<close>

definition calculate_total_emissions_store ::
  "addr \<Rightarrow> val \<Rightarrow> store \<Rightarrow> (store_error + val) \<times> store" where
  "calculate_total_emissions_store table data s =
     (let factors = Ref table in
      case load_dict s data of
        Inl err \<Rightarrow> (Inl err, s)
      | Inr entries \<Rightarrow>
          (let (emissions, s1) = alloc (Dict []) s in
           case total_emissions_loop_store factors entries (Ref emissions) s1 of
             (Inl err, s2) \<Rightarrow> (Inl err, s2)
           | (Inr u, s2) \<Rightarrow> (Inr (Ref emissions), s2)))"

subsection \<open>The decade projection\<close>

definition subscript_num :: "val dict \<Rightarrow> string \<Rightarrow> store_error + rat" where
  "subscript_num d k = (case subscript d k of Inl err \<Rightarrow> Inl err | Inr v \<Rightarrow> load_num v)"

definition base_total_store :: "store \<Rightarrow> val \<Rightarrow> store_error + rat" where
  "base_total_store s base_emissions =
     (case load_dict s base_emissions of Inl err \<Rightarrow> Inl err | Inr d \<Rightarrow>
     (case subscript_num d ''livestock'' of Inl err \<Rightarrow> Inl err | Inr l \<Rightarrow>
     (case subscript_num d ''crops'' of Inl err \<Rightarrow> Inl err | Inr c \<Rightarrow>
     (case subscript_num d ''fertilizer'' of Inl err \<Rightarrow> Inl err | Inr f \<Rightarrow>
     (case subscript_num d ''fuel'' of Inl err \<Rightarrow> Inl err | Inr u \<Rightarrow>
     (case subscript_num d ''electricity'' of Inl err \<Rightarrow> Inl err | Inr e \<Rightarrow>
        Inr (l + c + f + u + e)))))))"

text \<open>\<open>[e * 0.8 for e in traditional_emissions]\<close>, on the elements of the list.\<close>

fun scale_all :: "val list \<Rightarrow> store_error + val list" where
  "scale_all [] = Inr []"
| "scale_all (e # rest) =
     (case load_num e of
        Inl err \<Rightarrow> Inl err
      | Inr x \<Rightarrow>
          (case scale_all rest of
             Inl err \<Rightarrow> Inl err
           | Inr ys \<Rightarrow> Inr (Num (x * 0.8) # ys)))"

text \<open>\<open>xs[-1]\<close>, which raises \<open>IndexError\<close> on an empty list.\<close>

definition last_num :: "store \<Rightarrow> val \<Rightarrow> store_error + rat" where
  "last_num s xs_ref =
     (case load_list s xs_ref of
        Inl err \<Rightarrow> Inl err
      | Inr xs \<Rightarrow> if xs = [] then Inl Store_IndexError else load_num (last xs))"

fun grow_store :: "nat \<Rightarrow> val \<Rightarrow> val \<Rightarrow> store \<Rightarrow> (store_error + unit) \<times> store" where
  "grow_store 0 traditional_emissions reduced_emissions s = (Inr (), s)"
| "grow_store (Suc n) traditional_emissions reduced_emissions s =
     (case last_num s traditional_emissions of
        Inl err \<Rightarrow> (Inl err, s)
      | Inr x \<Rightarrow>
     (case list_append traditional_emissions (Num (x * 1.05)) s of
        Inl err \<Rightarrow> (Inl err, s)
      | Inr s1 \<Rightarrow>
     (case last_num s1 reduced_emissions of
        Inl err \<Rightarrow> (Inl err, s1)
      | Inr y \<Rightarrow>
     (case list_append reduced_emissions (Num (y * 1.05)) s1 of
        Inl err \<Rightarrow> (Inl err, s1)
      | Inr s2 \<Rightarrow> grow_store n traditional_emissions reduced_emissions s2))))"

definition predict_future_emissions_store ::
  "addr \<Rightarrow> val \<Rightarrow> store \<Rightarrow> (store_error + val) \<times> store" where
  "predict_future_emissions_store table data s =
     (case calculate_total_emissions_store table data s of
        (Inl err, s1) \<Rightarrow> (Inl err, s1)
      | (Inr base_emissions, s1) \<Rightarrow>
     (let (years_ref, s2) = alloc (List (map (\<lambda>y. Num (of_nat y)) years)) s1 in
      case base_total_store s2 base_emissions of
        Inl err \<Rightarrow> (Inl err, s2)
      | Inr base \<Rightarrow>
     (let (traditional_emissions, s3) = alloc (List [Num base]) s2 in
      case load_list s3 (Ref traditional_emissions) of
        Inl err \<Rightarrow> (Inl err, s3)
      | Inr es \<Rightarrow>
     (case scale_all es of
        Inl err \<Rightarrow> (Inl err, s3)
      | Inr rs \<Rightarrow>
     (let (reduced_emissions, s4) = alloc (List rs) s3 in
      case grow_store (length years - 1) (Ref traditional_emissions) (Ref reduced_emissions) s4 of
        (Inl err, s5) \<Rightarrow> (Inl err, s5)
      | (Inr u, s5) \<Rightarrow>
     (let (result, s6) =
            alloc (Dict [(''traditional'', Ref traditional_emissions),
                         (''reduced'', Ref reduced_emissions)]) s5
      in (Inr (Ref result), s6)))))))"

subsection \<open>Recommendations\<close>

fun recommend_items_store ::
  "(string \<Rightarrow> string) \<Rightarrow> val dict \<Rightarrow> val \<Rightarrow> store \<Rightarrow> (store_error + unit) \<times> store" where
  "recommend_items_store line [] recommendations s = (Inr (), s)"
| "recommend_items_store line ((item, quantity) # rest) recommendations s =
     (case load_num quantity of
        Inl err \<Rightarrow> (Inl err, s)
      | Inr q \<Rightarrow>
          if q > 0
          then (case list_append recommendations (Str (line item)) s of
                  Inl err \<Rightarrow> (Inl err, s)
                | Inr s1 \<Rightarrow> recommend_items_store line rest recommendations s1)
          else recommend_items_store line rest recommendations s)"

definition recommend_category_store ::
  "val \<Rightarrow> val \<Rightarrow> string \<times> string \<times> (string \<Rightarrow> string) \<Rightarrow> store \<Rightarrow> (store_error + unit) \<times> store" where
  "recommend_category_store data recommendations block s =
     (case block of (key, header, line) \<Rightarrow>
     (case load_dict s data of
        Inl err \<Rightarrow> (Inl err, s)
      | Inr entries \<Rightarrow>
          if \<not> contains entries key then (Inr (), s)
          else
     (case load_dict s (get_default entries key (Num 0)) of
        Inl err \<Rightarrow> (Inl err, s)
      | Inr items \<Rightarrow>
          if items = [] then (Inr (), s)
          else
     (case list_append recommendations (Str header) s of
        Inl err \<Rightarrow> (Inl err, s)
      | Inr s1 \<Rightarrow> recommend_items_store line items recommendations s1))))"

fun recommend_blocks_store ::
  "val \<Rightarrow> val \<Rightarrow> (string \<times> string \<times> (string \<Rightarrow> string)) list \<Rightarrow> store \<Rightarrow>
     (store_error + unit) \<times> store" where
  "recommend_blocks_store data recommendations [] s = (Inr (), s)"
| "recommend_blocks_store data recommendations (block # rest) s =
     (case recommend_category_store data recommendations block s of
        (Inl err, s1) \<Rightarrow> (Inl err, s1)
      | (Inr u, s1) \<Rightarrow> recommend_blocks_store data recommendations rest s1)"

definition generate_recommendations_store :: "val \<Rightarrow> store \<Rightarrow> (store_error + val) \<times> store" where
  "generate_recommendations_store data s =
     (let (recommendations, s1) = alloc (List []) s in
      case recommend_blocks_store data (Ref recommendations) recommendation_blocks s1 of
        (Inl err, s2) \<Rightarrow> (Inl err, s2)
      | (Inr u, s2) \<Rightarrow> (Inr (Ref recommendations), s2))"

subsection \<open>Dict displays of the module and of the caller\<close>

text \<open>
  Evaluating a display of a dict of dicts, such as the table of the module or the
  quantity input that the caller builds, creates the inner dicts and then the outer one.
\<close>

fun alloc_dicts :: "quantities dict \<Rightarrow> store \<Rightarrow> val dict \<times> store" where
  "alloc_dicts [] s = ([], s)"
| "alloc_dicts ((k, d) # rest) s =
     (let (a, s1) = alloc (Dict (map (\<lambda>(item, q). (item, Num q)) d)) s;
          (entries, s2) = alloc_dicts rest s1
      in ((k, Ref a) # entries, s2))"

definition alloc_nested :: "quantities dict \<Rightarrow> store \<Rightarrow> addr \<times> store" where
  "alloc_nested d s = (let (entries, s1) = alloc_dicts d s in alloc (Dict entries) s1)"

text \<open>
  The store after the module has created its table, at address 5, and a caller has
  created the quantity input with Beef Cow: 2 under livestock and Gasoline: 0 under fuel,
  at address 11.
\<close>

definition example_store :: store where
  "example_store =
     snd (alloc_nested
            [(''livestock'', [(''Beef Cow'', 2)]), (''crops'', []), (''fertilizer'', []),
             (''fuel'', [(''Gasoline'', 0)]), (''electricity'', [])]
            (snd (alloc_nested EMISSION_FACTORS [])))"

subsection \<open>Fresh results\<close>

text \<open>
  A value is fresh above \<open>n\<close> when it is immutable or refers to an address from \<open>n\<close>
  on; an object is fresh above \<open>n\<close> when all the values it holds are.
\<close>

definition fresh_value :: "nat \<Rightarrow> val \<Rightarrow> bool" where
  "fresh_value n v = (case v of Ref a \<Rightarrow> n \<le> a | Num q \<Rightarrow> True | Str t \<Rightarrow> True)"

definition fresh_object :: "nat \<Rightarrow> obj \<Rightarrow> bool" where
  "fresh_object n ob =
     (case ob of
        Dict d \<Rightarrow> list_all (\<lambda>(k, v). fresh_value n v) d
      | List xs \<Rightarrow> list_all (fresh_value n) xs)"

text \<open>
  The outcome of running an operation in the store \<open>s\<close>: every object of \<open>s\<close> is
  unchanged, every object created since holds only immutable values and references to
  objects created since, and a returned value is a reference to an object created since.
\<close>

definition constructed_fresh :: "store \<Rightarrow> (store_error + val) \<times> store \<Rightarrow> bool" where
  "constructed_fresh s out =
     (case out of (res, s') \<Rightarrow>
        take (length s) s' = s \<and>
        list_all (fresh_object (length s)) (drop (length s) s') \<and>
        (case res of
           Inl err \<Rightarrow> True
         | Inr v \<Rightarrow>
             (case v of
                Ref a \<Rightarrow> length s \<le> a \<and> a < length s'
              | Num q \<Rightarrow> False
              | Str t \<Rightarrow> False)))"

text \<open>
  The invariants of the proofs: the objects from address \<open>n\<close> on are fresh above
  \<open>n\<close>; and a step keeps the objects below \<open>n\<close> and this property.
\<close>

definition closed_above :: "nat \<Rightarrow> store \<Rightarrow> bool" where
  "closed_above n s \<longleftrightarrow> (\<forall>a < length s. n \<le> a \<longrightarrow> fresh_object n (s ! a))"

definition frame_above :: "nat \<Rightarrow> store \<Rightarrow> store \<Rightarrow> bool" where
  "frame_above n s s' \<longleftrightarrow>
     length s \<le> length s' \<and> take n s' = take n s \<and> (closed_above n s \<longrightarrow> closed_above n s')"

section \<open>Basic facts about the model\<close>

lemmas model_defs = calculate_total_emissions_def get_emission_factors_def EMISSION_FACTORS_def
  getitem_def get_default_def calculate_emissions_def

lemma categories_eq:
  "categories = [''livestock'', ''crops'', ''fertilizer'', ''fuel'', ''electricity'']"
  by (simp add: categories_def EMISSION_FACTORS_def)

lemma getitem_Inr_iff: "getitem d k = Inr v \<longleftrightarrow> map_of d k = Some v"
  by (simp add: getitem_def split: option.splits)

lemma getitem_Inl_iff: "getitem d k = Inl err \<longleftrightarrow> map_of d k = None \<and> err = KeyError k"
  by (auto simp: getitem_def split: option.splits)

lemma map_of_factors_known: "map_of EMISSION_FACTORS c \<noteq> None \<longleftrightarrow> c \<in> set categories"
  by (simp add: categories_def map_of_eq_None_iff)

subsection \<open>The totals are computed entry by entry\<close>

lemma sum_emissions_known:
  "map_of factors category = Some factor_dict \<Longrightarrow>
     sum_emissions factors category items acc = Inr (acc + category_total factor_dict items)"
  by (induction items arbitrary: acc)
    (auto simp: category_total_def getitem_def)

lemma sum_emissions_unknown:
  "map_of factors category = None \<Longrightarrow> items \<noteq> [] \<Longrightarrow>
     sum_emissions factors category items acc = Inl (KeyError category)"
  by (cases items) (auto simp: getitem_def)

lemma sum_emissions_Inr:
  "sum_emissions factors category items 0 = Inr t \<longleftrightarrow>
     (items \<noteq> [] \<longrightarrow> map_of factors category \<noteq> None) \<and>
     t = category_total (get_default factors category []) items"
proof (cases "map_of factors category")
  case None
  show ?thesis
  proof (cases "items = []")
    case True
    then show ?thesis by (auto simp: category_total_def)
  next
    case False
    with None show ?thesis by (simp add: sum_emissions_unknown)
  qed
next
  case (Some factor_dict)
  then show ?thesis
    by (auto simp: sum_emissions_known get_default_def)
qed

lemma total_emissions_loop_Inr:
  "total_emissions_loop factors data = Inr e \<longleftrightarrow>
     (\<forall>(c, items) \<in> set data. items \<noteq> [] \<longrightarrow> map_of factors c \<noteq> None) \<and>
     e = map (\<lambda>(c, items). (c, category_total (get_default factors c []) items)) data"
proof (induction data arbitrary: e)
  case Nil
  show ?case by auto
next
  case (Cons p data)
  obtain c items where p: "p = (c, items)" by (cases p)
  show ?case
  proof (cases "sum_emissions factors c items 0")
    case (Inl err)
    then have "\<not> (items \<noteq> [] \<longrightarrow> map_of factors c \<noteq> None)"
      using sum_emissions_Inr [of factors c items] by (metis Inl_Inr_False)
    with Inl show ?thesis by (simp add: p)
  next
    case (Inr t)
    then have known: "items \<noteq> [] \<longrightarrow> map_of factors c \<noteq> None"
      and t: "t = category_total (get_default factors c []) items"
      by (simp_all add: sum_emissions_Inr)
    show ?thesis
    proof (cases "total_emissions_loop factors data")
      case (Inl err)
      with Cons.IH [of "map (\<lambda>(c, items). (c, category_total (get_default factors c []) items)) data"]
      have "\<not> (\<forall>(c, items) \<in> set data. items \<noteq> [] \<longrightarrow> map_of factors c \<noteq> None)"
        by simp
      with Inl Inr show ?thesis by (simp add: p)
    next
      case rest: (Inr e')
      with Cons.IH [of e'] have
        "\<forall>(c, items) \<in> set data. items \<noteq> [] \<longrightarrow> map_of factors c \<noteq> None"
        "e' = map (\<lambda>(c, items). (c, category_total (get_default factors c []) items)) data"
        by simp_all
      with Inr rest known t show ?thesis by (auto simp: p)
    qed
  qed
qed

lemma calculate_total_emissions_Inr:
  "calculate_total_emissions data = Inr e \<longleftrightarrow>
     (\<forall>(c, items) \<in> set data. items \<noteq> [] \<longrightarrow> c \<in> set categories) \<and>
     e = map (\<lambda>(c, items). (c, category_total (get_default EMISSION_FACTORS c []) items)) data"
  unfolding calculate_total_emissions_def get_emission_factors_def total_emissions_loop_Inr
    map_of_factors_known ..

lemma calculate_total_emissions_known:
  "set (map fst data) \<subseteq> set categories \<Longrightarrow>
     calculate_total_emissions data =
       Inr (map (\<lambda>(c, items). (c, category_total (get_default EMISSION_FACTORS c []) items)) data)"
  unfolding calculate_total_emissions_Inr by auto

text \<open>
  A category that the table does not have raises \<open>KeyError\<close> when it has an item, and
  has the total 0 when it has none, since the table is read once per item.
\<close>

lemma unknown_category:
  "calculate_total_emissions [(''poultry'', [(''Duck'', 1)])] = Inl (KeyError ''poultry'')"
  "calculate_total_emissions [(''poultry'', [])] = Inr [(''poultry'', 0)]"
  by (simp_all add: model_defs)

lemma map_of_totals:
  "map_of (map (\<lambda>(c, items). (c, f c items)) data) k =
     (case map_of data k of None \<Rightarrow> None | Some items \<Rightarrow> Some (f k items))"
  by (induction data) (auto split: option.splits)

lemma map_fst_totals: "map fst (map (\<lambda>(c, items). (c, f c items)) data) = map fst data"
  by (induction data) auto

subsection \<open>One category\<close>

lemma get_default_nonneg:
  "\<forall>(k, v) \<in> set fd. 0 \<le> v \<Longrightarrow> 0 \<le> get_default fd item (0 :: rat)"
  by (auto simp: get_default_def split: option.splits dest: map_of_SomeD)

lemma factors_table_nonneg:
  "\<forall>(c, fd) \<in> set EMISSION_FACTORS. \<forall>(k, v) \<in> set fd. 0 \<le> v"
  by (simp add: EMISSION_FACTORS_def)

lemma factor_nonneg: "0 \<le> get_default (get_default EMISSION_FACTORS c []) item 0"
proof (cases "map_of EMISSION_FACTORS c")
  case None
  then show ?thesis by (simp add: get_default_def)
next
  case (Some fd)
  then have "(c, fd) \<in> set EMISSION_FACTORS"
    by (rule map_of_SomeD)
  with factors_table_nonneg have "\<forall>(k, v) \<in> set fd. 0 \<le> v"
    by blast
  then have "0 \<le> get_default fd item 0"
    by (rule get_default_nonneg)
  with Some show ?thesis by (simp add: get_default_def)
qed

lemma category_total_singleton:
  "category_total fd [(item, q)] = q * get_default fd item 0"
  by (simp add: category_total_def calculate_emissions_def)

lemma category_total_zero:
  "\<forall>(i, q) \<in> set items. q = 0 \<Longrightarrow> category_total fd items = 0"
  by (induction items) (auto simp: category_total_def calculate_emissions_def)

lemma category_total_nonneg:
  assumes "\<forall>(i, q) \<in> set items. 0 \<le> q" and "\<And>item. 0 \<le> get_default fd item 0"
  shows "0 \<le> category_total fd items"
  unfolding category_total_def
  using assms by (intro sum_list_nonneg) (auto simp: calculate_emissions_def)

subsection \<open>The growth loop\<close>

lemma grow_length:
  "length (fst (grow n (t, r))) = length t + n \<and> length (snd (grow n (t, r))) = length r + n"
  by (induction n arbitrary: t r) auto

lemma grow_nth_old_fst:
  "i < length t \<Longrightarrow> fst (grow n (t, r)) ! i = t ! i"
  by (induction n arbitrary: t r) (auto simp: nth_append)

lemma grow_nth_old_snd:
  "i < length r \<Longrightarrow> snd (grow n (t, r)) ! i = r ! i"
  by (induction n arbitrary: t r) (auto simp: nth_append)

lemma grow_step_fst:
  "t \<noteq> [] \<Longrightarrow> length t \<le> i \<Longrightarrow> i < length t + n \<Longrightarrow>
     fst (grow n (t, r)) ! i = fst (grow n (t, r)) ! (i - 1) * 1.05"
proof (induction n arbitrary: t r)
  case 0
  then show ?case by simp
next
  case (Suc n)
  let ?t = "t @ [last t * 1.05]" and ?r = "r @ [last r * 1.05]"
  show ?case
  proof (cases "i = length t")
    case True
    with Suc.prems have "fst (grow n (?t, ?r)) ! i = last t * 1.05"
      by (simp add: grow_nth_old_fst)
    moreover from True Suc.prems have "fst (grow n (?t, ?r)) ! (i - 1) = last t"
      by (simp add: grow_nth_old_fst nth_append last_conv_nth)
    ultimately show ?thesis by simp
  next
    case False
    with Suc.prems have "length ?t \<le> i" "i < length ?t + n" "?t \<noteq> []"
      by simp_all
    from Suc.IH [OF this(3) this(1) this(2)] show ?thesis by simp
  qed
qed

lemma grow_step_snd:
  "r \<noteq> [] \<Longrightarrow> length r \<le> i \<Longrightarrow> i < length r + n \<Longrightarrow>
     snd (grow n (t, r)) ! i = snd (grow n (t, r)) ! (i - 1) * 1.05"
proof (induction n arbitrary: t r)
  case 0
  then show ?case by simp
next
  case (Suc n)
  let ?t = "t @ [last t * 1.05]" and ?r = "r @ [last r * 1.05]"
  show ?case
  proof (cases "i = length r")
    case True
    with Suc.prems have "snd (grow n (?t, ?r)) ! i = last r * 1.05"
      by (simp add: grow_nth_old_snd)
    moreover from True Suc.prems have "snd (grow n (?t, ?r)) ! (i - 1) = last r"
      by (simp add: grow_nth_old_snd nth_append last_conv_nth)
    ultimately show ?thesis by simp
  next
    case False
    with Suc.prems have "length ?r \<le> i" "i < length ?r + n" "?r \<noteq> []"
      by simp_all
    from Suc.IH [OF this(3) this(1) this(2)] show ?thesis by simp
  qed
qed

text \<open>The decade has ten years, so the loop runs nine times.\<close>

lemma years_rounds: "length years - 1 = 9"
  by (simp add: years_def)

lemma project_eq:
  "project b =
     \<lparr>traditional = fst (grow 9 ([b], [b * 0.8])), reduced = snd (grow 9 ([b], [b * 0.8]))\<rparr>"
  unfolding project_def years_rounds by (simp add: split_beta Let_def)

lemma project_base: "traditional (project b) ! 0 = b"
  by (simp add: project_eq grow_nth_old_fst)

subsection \<open>When the projection is defined\<close>

lemma base_total_Inr:
  "base_total e = Inr b \<longleftrightarrow>
     (\<exists>l c f u el. map_of e ''livestock'' = Some l \<and> map_of e ''crops'' = Some c \<and>
        map_of e ''fertilizer'' = Some f \<and> map_of e ''fuel'' = Some u \<and>
        map_of e ''electricity'' = Some el \<and> b = l + c + f + u + el)"
  by (auto simp: base_total_def getitem_def split: option.splits)

lemma base_total_Inl:
  "base_total e = Inl err \<Longrightarrow> \<exists>k \<in> set categories. map_of e k = None \<and> err = KeyError k"
  by (auto simp: base_total_def getitem_def categories_eq split: option.splits)

lemma base_total_cases:
  "(\<exists>b. base_total e = Inr b) \<or>
   (\<exists>k \<in> set categories. map_of e k = None \<and> base_total e = Inl (KeyError k))"
  by (cases "base_total e") (auto dest: base_total_Inl)

lemma base_total_defined:
  "(\<exists>b. base_total e = Inr b) \<longleftrightarrow> set categories \<subseteq> set (map fst e)"
proof -
  have "(\<exists>b. base_total e = Inr b) \<longleftrightarrow> (\<forall>k \<in> set categories. map_of e k \<noteq> None)"
    by (auto simp: base_total_Inr categories_eq)
  also have "\<dots> \<longleftrightarrow> set categories \<subseteq> set (map fst e)"
    by (auto simp: map_of_eq_None_iff)
  finally show ?thesis .
qed

lemma calculate_total_emissions_keys:
  "calculate_total_emissions data = Inr e \<Longrightarrow> map fst e = map fst data"
  by (simp add: calculate_total_emissions_Inr case_prod_beta comp_def)

lemma calculate_total_emissions_defined:
  "(\<exists>e. calculate_total_emissions data = Inr e) \<longleftrightarrow>
     (\<forall>(c, items) \<in> set data. items \<noteq> [] \<longrightarrow> c \<in> set categories)"
  by (simp add: calculate_total_emissions_Inr)

lemma predict_future_emissions_Inr:
  "predict_future_emissions data = Inr r \<longleftrightarrow>
     (\<exists>e b. calculate_total_emissions data = Inr e \<and> base_total e = Inr b \<and> r = project b)"
  by (auto simp: predict_future_emissions_def split: sum.splits)

lemma predict_future_emissions_defined:
  "(\<exists>r. predict_future_emissions data = Inr r) \<longleftrightarrow>
     set categories \<subseteq> set (map fst data) \<and>
     (\<forall>(c, items) \<in> set data. items \<noteq> [] \<longrightarrow> c \<in> set categories)"
proof
  assume "\<exists>r. predict_future_emissions data = Inr r"
  then obtain e b where e: "calculate_total_emissions data = Inr e" and b: "base_total e = Inr b"
    by (auto simp: predict_future_emissions_Inr)
  from e have "\<forall>(c, items) \<in> set data. items \<noteq> [] \<longrightarrow> c \<in> set categories"
    using calculate_total_emissions_defined by blast
  moreover from b have "set categories \<subseteq> set (map fst e)"
    using base_total_defined by blast
  moreover note calculate_total_emissions_keys [OF e]
  ultimately show "set categories \<subseteq> set (map fst data) \<and>
     (\<forall>(c, items) \<in> set data. items \<noteq> [] \<longrightarrow> c \<in> set categories)"
    by simp
next
  assume keys: "set categories \<subseteq> set (map fst data) \<and>
     (\<forall>(c, items) \<in> set data. items \<noteq> [] \<longrightarrow> c \<in> set categories)"
  then obtain e where e: "calculate_total_emissions data = Inr e"
    using calculate_total_emissions_defined [of data] by blast
  with keys have "set categories \<subseteq> set (map fst e)"
    by (simp add: calculate_total_emissions_keys)
  then obtain b where "base_total e = Inr b"
    using base_total_defined by blast
  with e show "\<exists>r. predict_future_emissions data = Inr r"
    by (auto simp: predict_future_emissions_Inr)
qed

lemma predict_future_emissions_five:
  assumes "set (map fst data) = set categories"
  shows "\<exists>r. predict_future_emissions data = Inr r"
proof -
  from assms have "\<forall>(c, items) \<in> set data. items \<noteq> [] \<longrightarrow> c \<in> set categories"
    by force
  with assms show ?thesis
    by (simp add: predict_future_emissions_defined)
qed

subsection \<open>The recommendation loop is a comprehension\<close>

lemma recommend_items_eq:
  "recommend_items line items recs =
     recs @ map (\<lambda>(item, quantity). line item) (filter (\<lambda>(item, quantity). quantity > 0) items)"
  by (induction items arbitrary: recs) auto

lemma recommend_category_eq:
  "recommend_category data recs block = recs @ category_lines data block"
  by (cases block)
    (simp add: recommend_category_def category_lines_def contains_def get_default_def
      recommend_items_eq split: option.splits)

lemma foldl_append_concat:
  "(\<And>acc b. step acc b = acc @ f b) \<Longrightarrow> foldl step init bs = init @ concat (map f bs)"
  by (induction bs arbitrary: init) simp_all

lemma generate_recommendations_eq:
  "generate_recommendations data = concat (map (category_lines data) recommendation_blocks)"
  unfolding generate_recommendations_def
  using foldl_append_concat [of "recommend_category data" "category_lines data" "[]"]
  by (simp add: recommend_category_eq)

lemma in_category_lines:
  "s \<in> set (category_lines data (key, header, line)) \<longleftrightarrow>
     (\<exists>items. map_of data key = Some items \<and> items \<noteq> [] \<and>
        (s = header \<or> (\<exists>(item, quantity) \<in> set items. quantity > 0 \<and> s = line item)))"
proof (cases "map_of data key")
  case None
  then show ?thesis by (simp add: category_lines_def)
next
  case (Some items)
  then show ?thesis
    by (cases "items = []") (auto simp: category_lines_def)
qed

lemma in_generate_recommendations:
  "s \<in> set (generate_recommendations data) \<longleftrightarrow>
     (\<exists>(key, header, line) \<in> set recommendation_blocks.
        \<exists>items. map_of data key = Some items \<and> items \<noteq> [] \<and>
          (s = header \<or> (\<exists>(item, quantity) \<in> set items. quantity > 0 \<and> s = line item)))"
proof -
  have "s \<in> set (generate_recommendations data) \<longleftrightarrow>
          (\<exists>block \<in> set recommendation_blocks. s \<in> set (category_lines data block))"
    by (auto simp: generate_recommendations_eq)
  also have "\<dots> \<longleftrightarrow> (\<exists>(key, header, line) \<in> set recommendation_blocks.
        s \<in> set (category_lines data (key, header, line)))"
    by auto
  finally show ?thesis
    by (simp only: in_category_lines)
qed

subsection \<open>The headers and lines of different categories differ\<close>

lemma blocks_distinct:
  "\<forall>(key, header, line) \<in> set recommendation_blocks.
   \<forall>(key', header', line') \<in> set recommendation_blocks.
     (header = header' \<longrightarrow> key = key') \<and> (\<forall>i. header \<noteq> line' i) \<and>
     (\<forall>i j. line i = line' j \<longrightarrow> key = key')"
  by (simp add: recommendation_blocks_def)

lemma header_unique:
  assumes "(key, header, line) \<in> set recommendation_blocks"
    and "(key', header, line') \<in> set recommendation_blocks"
  shows "key = key'"
  using blocks_distinct [THEN bspec, OF assms(1)] assms(2) by (simp add: Ball_def)

lemma header_not_line:
  assumes "(key, header, line) \<in> set recommendation_blocks"
    and "(key', header', line') \<in> set recommendation_blocks"
  shows "header \<noteq> line' i"
  using blocks_distinct [THEN bspec, OF assms(1)] assms(2) by (simp add: Ball_def)

lemma line_unique:
  assumes "(key, header, line) \<in> set recommendation_blocks"
    and "(key', header', line') \<in> set recommendation_blocks"
    and "line i = line' j"
  shows "key = key'"
  using blocks_distinct [THEN bspec, OF assms(1)] assms(2,3) by (simp add: Ball_def) blast

lemma lines_shape:
  "\<forall>(key, header, line) \<in> set recommendation_blocks.
      (key \<in> {''fertilizer'', ''fuel'', ''electricity''} \<longrightarrow> (\<forall>i j. line i = line j)) \<and>
      (key \<in> {''livestock'', ''crops''} \<longrightarrow> (\<forall>i j. line i = line j \<longrightarrow> i = j))"
  by (simp add: recommendation_blocks_def)

lemma header_emitted:
  assumes block: "(key, header, line) \<in> set recommendation_blocks"
  shows "header \<in> set (generate_recommendations data) \<longleftrightarrow>
        (\<exists>items. map_of data key = Some items \<and> items \<noteq> [])"
proof
  assume "header \<in> set (generate_recommendations data)"
  then obtain key' header' line' items where
    block': "(key', header', line') \<in> set recommendation_blocks" and
    items: "map_of data key' = Some items" "items \<noteq> []" and
    s: "header = header' \<or> (\<exists>(item, quantity) \<in> set items. quantity > 0 \<and> header = line' item)"
    unfolding in_generate_recommendations by blast
  from header_not_line [OF block block'] s have "header = header'"
    by blast
  with block' have "(key', header, line') \<in> set recommendation_blocks"
    by simp
  from header_unique [OF block this] items
  show "\<exists>items. map_of data key = Some items \<and> items \<noteq> []"
    by blast
next
  assume "\<exists>items. map_of data key = Some items \<and> items \<noteq> []"
  with block show "header \<in> set (generate_recommendations data)"
    unfolding in_generate_recommendations by blast
qed

lemma line_emitted:
  assumes block: "(key, header, line) \<in> set recommendation_blocks"
  shows "(\<exists>item. line item \<in> set (generate_recommendations data)) \<longleftrightarrow>
        (\<exists>items. map_of data key = Some items \<and>
           (\<exists>(item, quantity) \<in> set items. quantity > 0))"
proof
  assume "\<exists>item. line item \<in> set (generate_recommendations data)"
  then obtain item key' header' line' items where
    block': "(key', header', line') \<in> set recommendation_blocks" and
    items: "map_of data key' = Some items" and
    s: "line item = header' \<or>
        (\<exists>(item', quantity) \<in> set items. quantity > 0 \<and> line item = line' item')"
    unfolding in_generate_recommendations by blast
  from header_not_line [OF block' block, of item] s obtain item' quantity where
    pos: "(item', quantity) \<in> set items" "quantity > 0" and eq: "line item = line' item'"
    by auto
  from line_unique [OF block block' eq] items pos
  show "\<exists>items. map_of data key = Some items \<and>
         (\<exists>(item, quantity) \<in> set items. quantity > 0)"
    by blast
next
  assume "\<exists>items. map_of data key = Some items \<and>
         (\<exists>(item, quantity) \<in> set items. quantity > 0)"
  then obtain items item quantity where
    items: "map_of data key = Some items" "(item, quantity) \<in> set items" "quantity > 0"
    by blast
  then have "items \<noteq> []" by auto
  with items block have "line item \<in> set (generate_recommendations data)"
    unfolding in_generate_recommendations by blast
  then show "\<exists>item. line item \<in> set (generate_recommendations data)" ..
qed

section \<open>The operations leave the store they find unchanged\<close>

text \<open>
  A step of an operation relates the store before it to the store after it. Steps
  compose, and the three kinds of step that change the store (creating an object,
  appending to a list, assigning an item of a dict) keep everything below \<open>n\<close> when
  the object written lies at \<open>n\<close> or above.
\<close>

lemma frame_above_refl: "frame_above n s s"
  by (simp add: frame_above_def)

lemma frame_above_trans: "frame_above n s s1 \<Longrightarrow> frame_above n s1 s2 \<Longrightarrow> frame_above n s s2"
  by (simp add: frame_above_def)

lemma frame_above_length: "frame_above n s s' \<Longrightarrow> length s \<le> length s'"
  by (simp add: frame_above_def)

lemma closed_above_start: "closed_above (length s) s"
  by (simp add: closed_above_def)

lemma frame_above_start:
  assumes "frame_above (length s) s s'"
  shows "take (length s) s' = s \<and>
         (\<forall>a. length s \<le> a \<and> a < length s' \<longrightarrow> fresh_object (length s) (s' ! a))"
  using assms closed_above_start [of s] by (auto simp: frame_above_def closed_above_def)

lemma frame_above_alloc:
  assumes "alloc ob s = (a, s')" and "n \<le> length s" and "fresh_object n ob"
  shows "frame_above n s s' \<and> a = length s \<and> a < length s'"
proof -
  from assms(1) have s': "s' = s @ [ob]" and a: "a = length s"
    by (simp_all add: alloc_def)
  have "closed_above n s'" if "closed_above n s"
    unfolding closed_above_def
  proof (intro allI impI)
    fix b
    assume "b < length s'" and "n \<le> b"
    with that assms(3) show "fresh_object n (s' ! b)"
      by (cases "b < length s") (auto simp: s' nth_append closed_above_def)
  qed
  with assms(2) show ?thesis
    by (simp add: frame_above_def s' a)
qed

lemma fresh_object_update:
  "list_all (\<lambda>(k, v). fresh_value n v) d \<Longrightarrow> fresh_value n v \<Longrightarrow>
     list_all (\<lambda>(k, v). fresh_value n v) (AList.update k v d)"
  by (induction d) auto

lemma frame_above_write:
  assumes "a < length s" and "n \<le> a" and "closed_above n s \<longrightarrow> fresh_object n ob"
  shows "frame_above n s (s[a := ob])"
proof -
  have "closed_above n (s[a := ob])" if "closed_above n s"
    unfolding closed_above_def
  proof (intro allI impI)
    fix b
    assume "b < length (s[a := ob])" and "n \<le> b"
    with that assms show "fresh_object n (s[a := ob] ! b)"
      by (cases "b = a") (auto simp: closed_above_def)
  qed
  with assms(2) show ?thesis
    by (simp add: frame_above_def)
qed

lemma frame_above_list_append:
  assumes "list_append (Ref a) v s = Inr s'" and "n \<le> a" and "fresh_value n v"
  shows "frame_above n s s'"
proof -
  from assms(1) obtain xs where a: "a < length s" and xs: "s ! a = List xs"
    and s': "s' = s[a := List (xs @ [v])]"
    by (auto simp: list_append_def split: if_splits obj.splits)
  have "closed_above n s \<longrightarrow> fresh_object n (List (xs @ [v]))"
  proof
    assume "closed_above n s"
    with a assms(2) have "fresh_object n (s ! a)"
      by (simp add: closed_above_def)
    with xs assms(3) show "fresh_object n (List (xs @ [v]))"
      by (simp add: fresh_object_def)
  qed
  with a assms(2) show ?thesis
    unfolding s' by (rule frame_above_write)
qed

lemma frame_above_dict_setitem:
  assumes "dict_setitem (Ref a) k v s = Inr s'" and "n \<le> a" and "fresh_value n v"
  shows "frame_above n s s'"
proof -
  from assms(1) obtain d where a: "a < length s" and d: "s ! a = Dict d"
    and s': "s' = s[a := Dict (AList.update k v d)]"
    by (auto simp: dict_setitem_def split: if_splits obj.splits)
  have "closed_above n s \<longrightarrow> fresh_object n (Dict (AList.update k v d))"
  proof
    assume "closed_above n s"
    with a assms(2) have "fresh_object n (s ! a)"
      by (simp add: closed_above_def)
    with d assms(3) show "fresh_object n (Dict (AList.update k v d))"
      by (simp add: fresh_object_def fresh_object_update)
  qed
  with a assms(2) show ?thesis
    unfolding s' by (rule frame_above_write)
qed

lemma fresh_value_simps:
  "fresh_value n (Num q)" "fresh_value n (Str t)" "fresh_value n (Ref a) \<longleftrightarrow> n \<le> a"
  by (simp_all add: fresh_value_def)

subsection \<open>Total emissions\<close>

text \<open>
  The sum of a category only reads. The comprehension writes to the dict it has created,
  whose address is the length of the store at the call.
\<close>

lemma calculate_emissions_store_same:
  "calculate_emissions_store quantity factor s = (res, s') \<Longrightarrow> s' = s"
  by (auto simp: calculate_emissions_store_def split: sum.splits)

lemma sum_emissions_store_same:
  "sum_emissions_store factors category items acc s = (res, s') \<Longrightarrow> s' = s"
proof (induction items arbitrary: acc s)
  case Nil
  then show ?case by simp
next
  case (Cons p items)
  obtain item quantity where p: "p = (item, quantity)" by (cases p)
  from Cons.prems show ?case
    by (auto simp: p split: sum.splits prod.splits
        dest!: calculate_emissions_store_same Cons.IH)
qed

lemma total_emissions_loop_store_frame:
  "total_emissions_loop_store factors entries (Ref a) s = (res, s') \<Longrightarrow> n \<le> a \<Longrightarrow>
     frame_above n s s'"
proof (induction entries arbitrary: s)
  case Nil
  then show ?case by (simp add: frame_above_refl)
next
  case (Cons p entries)
  obtain category items where p: "p = (category, items)" by (cases p)
  show ?case
  proof (cases "load_dict s items")
    case (Inl err)
    with Cons.prems show ?thesis by (simp add: p frame_above_refl)
  next
    case items: (Inr item_list)
    obtain r1 s1 where sum: "sum_emissions_store factors category item_list 0 s = (r1, s1)"
      by (cases "sum_emissions_store factors category item_list 0 s")
    then have s1: "s1 = s" by (rule sum_emissions_store_same)
    show ?thesis
    proof (cases r1)
      case (Inl err)
      with Cons.prems items sum s1 show ?thesis by (simp add: p frame_above_refl)
    next
      case total: (Inr category_sum)
      show ?thesis
      proof (cases "dict_setitem (Ref a) category (Num category_sum) s")
        case (Inl err)
        with Cons.prems items sum s1 total show ?thesis by (simp add: p frame_above_refl)
      next
        case (Inr s2)
        with Cons.prems items sum s1 total
        have "total_emissions_loop_store factors entries (Ref a) s2 = (res, s')"
          by (simp add: p)
        then have "frame_above n s2 s'"
          using Cons.prems(2) by (rule Cons.IH)
        moreover from Inr Cons.prems(2) have "frame_above n s s2"
          by (rule frame_above_dict_setitem) (rule fresh_value_simps)
        ultimately show ?thesis by (rule frame_above_trans [rotated])
      qed
    qed
  qed
qed

lemma calculate_total_emissions_store_frame:
  assumes "calculate_total_emissions_store table data s = (res, s')" and "n \<le> length s"
  shows "frame_above n s s' \<and> (\<forall>v. res = Inr v \<longrightarrow> (\<exists>a. v = Ref a \<and> length s \<le> a \<and> a < length s'))"
proof (cases "load_dict s data")
  case (Inl err)
  with assms show ?thesis
    by (auto simp: calculate_total_emissions_store_def frame_above_refl)
next
  case (Inr entries)
  obtain a s1 where al: "alloc (Dict []) s = (a, s1)"
    by (cases "alloc (Dict []) s")
  have "fresh_object n (Dict [])"
    by (simp add: fresh_object_def)
  from frame_above_alloc [OF al assms(2) this] have
    fr1: "frame_above n s s1" and a: "a = length s" "a < length s1"
    by simp_all
  obtain r2 s2 where loop: "total_emissions_loop_store (Ref table) entries (Ref a) s1 = (r2, s2)"
    by (cases "total_emissions_loop_store (Ref table) entries (Ref a) s1")
  from assms(2) a have "n \<le> a" by simp
  with loop have fr2: "frame_above n s1 s2"
    by (rule total_emissions_loop_store_frame)
  from loop have "frame_above a s1 s2"
    by (rule total_emissions_loop_store_frame) simp
  then have len: "length s1 \<le> length s2"
    by (rule frame_above_length)
  from assms(1) Inr al loop have "s' = s2" and "res = Inr (Ref a) \<or> (\<exists>err. res = Inl err)"
    by (auto simp: calculate_total_emissions_store_def split: sum.splits)
  with fr1 fr2 a len show ?thesis
    by (auto intro: frame_above_trans)
qed

subsection \<open>The decade projection\<close>

text \<open>
  The loop appends to the two lists that the function has created; the result dict
  refers to these two lists.
\<close>

lemma scale_all_fresh: "scale_all es = Inr rs \<Longrightarrow> list_all (fresh_value n) rs"
  by (induction es arbitrary: rs) (auto simp: fresh_value_simps split: sum.splits)

lemma grow_store_frame:
  "grow_store k (Ref t) (Ref r) s = (res, s') \<Longrightarrow> n \<le> t \<Longrightarrow> n \<le> r \<Longrightarrow> frame_above n s s'"
proof (induction k arbitrary: s)
  case 0
  then show ?case by (simp add: frame_above_refl)
next
  case (Suc k)
  show ?case
  proof (cases "last_num s (Ref t)")
    case (Inl err)
    with Suc.prems show ?thesis by (simp add: frame_above_refl)
  next
    case x: (Inr x)
    show ?thesis
    proof (cases "list_append (Ref t) (Num (x * 1.05)) s")
      case (Inl err)
      with Suc.prems x show ?thesis by (simp add: frame_above_refl)
    next
      case s1: (Inr s1)
      from s1 Suc.prems(2) have fr1: "frame_above n s s1"
        by (rule frame_above_list_append) (rule fresh_value_simps)
      show ?thesis
      proof (cases "last_num s1 (Ref r)")
        case (Inl err)
        with Suc.prems x s1 fr1 show ?thesis by simp
      next
        case y: (Inr y)
        show ?thesis
        proof (cases "list_append (Ref r) (Num (y * 1.05)) s1")
          case (Inl err)
          with Suc.prems x s1 y fr1 show ?thesis by simp
        next
          case s2: (Inr s2)
          from s2 Suc.prems(3) have fr2: "frame_above n s1 s2"
            by (rule frame_above_list_append) (rule fresh_value_simps)
          from Suc.prems(1) x s1 y s2 have "grow_store k (Ref t) (Ref r) s2 = (res, s')"
            by simp
          then have "frame_above n s2 s'"
            using Suc.prems(2,3) by (rule Suc.IH)
          with fr1 fr2 show ?thesis
            by (blast intro: frame_above_trans)
        qed
      qed
    qed
  qed
qed

lemma predict_future_emissions_store_frame:
  assumes run: "predict_future_emissions_store table data s = (res, s')" and n: "n \<le> length s"
  shows "frame_above n s s' \<and>
         (\<forall>v. res = Inr v \<longrightarrow> (\<exists>a. v = Ref a \<and> length s \<le> a \<and> a < length s'))"
proof -
  obtain r1 s1 where totals: "calculate_total_emissions_store table data s = (r1, s1)"
    by (cases "calculate_total_emissions_store table data s")
  from calculate_total_emissions_store_frame [OF totals n] have fr1: "frame_above n s s1"
    by simp
  then have len1: "length s \<le> length s1" "n \<le> length s1"
    using n by (auto dest: frame_above_length)
  show ?thesis
  proof (cases r1)
    case (Inl err)
    with run totals fr1 show ?thesis
      by (auto simp: predict_future_emissions_store_def)
  next
    case base_emissions: (Inr base_emissions)
    obtain years_ref s2 where al2: "alloc (List (map (\<lambda>y. Num (of_nat y)) years)) s1 = (years_ref, s2)"
      by (cases "alloc (List (map (\<lambda>y. Num (of_nat y)) years)) s1")
    have "fresh_object n (List (map (\<lambda>y. Num (of_nat y)) years))"
      by (simp add: fresh_object_def list_all_iff fresh_value_simps)
    from frame_above_alloc [OF al2 len1(2) this] have fr2: "frame_above n s1 s2"
      by simp
    then have len2: "length s1 \<le> length s2" "n \<le> length s2"
      using len1 by (auto dest: frame_above_length)
    show ?thesis
    proof (cases "base_total_store s2 base_emissions")
      case (Inl err)
      with run totals base_emissions al2 have "s' = s2" "res = Inl err"
        by (simp_all add: predict_future_emissions_store_def)
      with fr1 fr2 show ?thesis
        by (auto intro: frame_above_trans)
    next
      case base: (Inr base)
      obtain t s3 where al3: "alloc (List [Num base]) s2 = (t, s3)"
        by (cases "alloc (List [Num base]) s2")
      have "fresh_object n (List [Num base])"
        by (simp add: fresh_object_def fresh_value_simps)
      from frame_above_alloc [OF al3 len2(2) this] have fr3: "frame_above n s2 s3"
        and t: "t = length s2"
        by simp_all
      then have len3: "length s2 \<le> length s3" "n \<le> length s3"
        using len2 by (auto dest: frame_above_length)
      from fr1 fr2 fr3 have fr13: "frame_above n s s3"
        by (blast intro: frame_above_trans)
      show ?thesis
      proof (cases "load_list s3 (Ref t)")
        case (Inl err)
        with run totals base_emissions al2 base al3 have "s' = s3" "res = Inl err"
          by (simp_all add: predict_future_emissions_store_def)
        with fr13 show ?thesis by auto
      next
        case es: (Inr es)
        show ?thesis
        proof (cases "scale_all es")
          case (Inl err)
          with run totals base_emissions al2 base al3 es have "s' = s3" "res = Inl err"
            by (simp_all add: predict_future_emissions_store_def)
          with fr13 show ?thesis by auto
        next
          case rs: (Inr rs)
          obtain r s4 where al4: "alloc (List rs) s3 = (r, s4)"
            by (cases "alloc (List rs) s3")
          from rs have "fresh_object n (List rs)"
            by (simp add: fresh_object_def scale_all_fresh)
          from frame_above_alloc [OF al4 len3(2) this] have fr4: "frame_above n s3 s4"
            and r: "r = length s3"
            by simp_all
          then have len4: "length s3 \<le> length s4" "n \<le> length s4"
            using len3 by (auto dest: frame_above_length)
          obtain r5 s5 where loop: "grow_store (length years - 1) (Ref t) (Ref r) s4 = (r5, s5)"
            by (cases "grow_store (length years - 1) (Ref t) (Ref r) s4")
          from t r len2 len3 have tr: "n \<le> t" "n \<le> r"
            by simp_all
          with loop have fr5: "frame_above n s4 s5"
            by (rule grow_store_frame)
          then have len5: "length s4 \<le> length s5" "n \<le> length s5"
            using len4 by (auto dest: frame_above_length)
          from fr13 fr4 fr5 have fr15: "frame_above n s s5"
            by (blast intro: frame_above_trans)
          show ?thesis
          proof (cases r5)
            case (Inl err)
            with run totals base_emissions al2 base al3 es rs al4 loop
            have "s' = s5" "res = Inl err"
              by (simp_all add: predict_future_emissions_store_def)
            with fr15 show ?thesis by auto
          next
            case (Inr u)
            obtain result s6 where al6:
              "alloc (Dict [(''traditional'', Ref t), (''reduced'', Ref r)]) s5 = (result, s6)"
              by (cases "alloc (Dict [(''traditional'', Ref t), (''reduced'', Ref r)]) s5")
            from tr have "fresh_object n (Dict [(''traditional'', Ref t), (''reduced'', Ref r)])"
              by (simp add: fresh_object_def fresh_value_simps)
            from frame_above_alloc [OF al6 len5(2) this] have fr6: "frame_above n s5 s6"
              and result: "result = length s5" "result < length s6"
              by simp_all
            from run totals base_emissions al2 base al3 es rs al4 loop Inr al6
            have "s' = s6" "res = Inr (Ref result)"
              by (simp_all add: predict_future_emissions_store_def)
            moreover from fr15 fr6 have "frame_above n s s6"
              by (rule frame_above_trans)
            moreover from result len1 len2 len3 len4 len5 have "length s \<le> result"
              by simp
            ultimately show ?thesis using result by auto
          qed
        qed
      qed
    qed
  qed
qed

subsection \<open>Recommendations\<close>

text \<open>Every append goes to the list that the function has created.\<close>

lemma recommend_items_store_frame:
  "recommend_items_store line items (Ref a) s = (res, s') \<Longrightarrow> n \<le> a \<Longrightarrow> frame_above n s s'"
proof (induction items arbitrary: s)
  case Nil
  then show ?case by (simp add: frame_above_refl)
next
  case (Cons p items)
  obtain item quantity where p: "p = (item, quantity)" by (cases p)
  show ?case
  proof (cases "load_num quantity")
    case (Inl err)
    with Cons.prems show ?thesis by (simp add: p frame_above_refl)
  next
    case q: (Inr q)
    show ?thesis
    proof (cases "q > 0")
      case False
      with Cons.prems q have "recommend_items_store line items (Ref a) s = (res, s')"
        by (simp add: p)
      then show ?thesis using Cons.prems(2) by (rule Cons.IH)
    next
      case True
      show ?thesis
      proof (cases "list_append (Ref a) (Str (line item)) s")
        case (Inl err)
        with Cons.prems q True show ?thesis by (simp add: p frame_above_refl)
      next
        case (Inr s1)
        with Cons.prems q True have "recommend_items_store line items (Ref a) s1 = (res, s')"
          by (simp add: p)
        then have "frame_above n s1 s'"
          using Cons.prems(2) by (rule Cons.IH)
        moreover from Inr Cons.prems(2) have "frame_above n s s1"
          by (rule frame_above_list_append) (rule fresh_value_simps)
        ultimately show ?thesis by (rule frame_above_trans [rotated])
      qed
    qed
  qed
qed

lemma recommend_category_store_frame:
  assumes "recommend_category_store data (Ref a) block s = (res, s')" and "n \<le> a"
  shows "frame_above n s s'"
proof -
  obtain key header line where block: "block = (key, header, line)"
    by (cases block)
  show ?thesis
  proof (cases "load_dict s data")
    case (Inl err)
    with assms show ?thesis
      by (simp add: recommend_category_store_def block frame_above_refl)
  next
    case entries: (Inr entries)
    show ?thesis
    proof (cases "contains entries key")
      case False
      with assms entries show ?thesis
        by (simp add: recommend_category_store_def block frame_above_refl)
    next
      case True
      show ?thesis
      proof (cases "load_dict s (get_default entries key (Num 0))")
        case (Inl err)
        with assms entries True show ?thesis
          by (simp add: recommend_category_store_def block frame_above_refl)
      next
        case items: (Inr items)
        show ?thesis
        proof (cases "items = []")
          case True
          with assms entries \<open>contains entries key\<close> items show ?thesis
            by (simp add: recommend_category_store_def block frame_above_refl)
        next
          case False
          show ?thesis
          proof (cases "list_append (Ref a) (Str header) s")
            case (Inl err)
            with assms entries \<open>contains entries key\<close> items False show ?thesis
              by (simp add: recommend_category_store_def block frame_above_refl)
          next
            case (Inr s1)
            with assms entries \<open>contains entries key\<close> items False
            have "recommend_items_store line items (Ref a) s1 = (res, s')"
              by (simp add: recommend_category_store_def block)
            then have "frame_above n s1 s'"
              using assms(2) by (rule recommend_items_store_frame)
            moreover from Inr assms(2) have "frame_above n s s1"
              by (rule frame_above_list_append) (rule fresh_value_simps)
            ultimately show ?thesis by (rule frame_above_trans [rotated])
          qed
        qed
      qed
    qed
  qed
qed

lemma recommend_blocks_store_frame:
  "recommend_blocks_store data (Ref a) blocks s = (res, s') \<Longrightarrow> n \<le> a \<Longrightarrow> frame_above n s s'"
proof (induction blocks arbitrary: s)
  case Nil
  then show ?case by (simp add: frame_above_refl)
next
  case (Cons block blocks)
  obtain r1 s1 where step: "recommend_category_store data (Ref a) block s = (r1, s1)"
    by (cases "recommend_category_store data (Ref a) block s")
  then have fr1: "frame_above n s s1"
    using Cons.prems(2) by (rule recommend_category_store_frame)
  show ?case
  proof (cases r1)
    case (Inl err)
    with Cons.prems step fr1 show ?thesis by simp
  next
    case (Inr u)
    with Cons.prems step have "recommend_blocks_store data (Ref a) blocks s1 = (res, s')"
      by simp
    then have "frame_above n s1 s'"
      using Cons.prems(2) by (rule Cons.IH)
    with fr1 show ?thesis by (rule frame_above_trans)
  qed
qed

lemma generate_recommendations_store_frame:
  assumes run: "generate_recommendations_store data s = (res, s')" and n: "n \<le> length s"
  shows "frame_above n s s' \<and>
         (\<forall>v. res = Inr v \<longrightarrow> (\<exists>a. v = Ref a \<and> length s \<le> a \<and> a < length s'))"
proof -
  obtain a s1 where al: "alloc (List []) s = (a, s1)"
    by (cases "alloc (List []) s")
  have "fresh_object n (List [])"
    by (simp add: fresh_object_def)
  from frame_above_alloc [OF al n this] have
    fr1: "frame_above n s s1" and a: "a = length s" "a < length s1"
    by simp_all
  obtain r2 s2 where loop: "recommend_blocks_store data (Ref a) recommendation_blocks s1 = (r2, s2)"
    by (cases "recommend_blocks_store data (Ref a) recommendation_blocks s1")
  from n a have "n \<le> a" by simp
  with loop have fr2: "frame_above n s1 s2"
    by (rule recommend_blocks_store_frame)
  from loop have "frame_above a s1 s2"
    by (rule recommend_blocks_store_frame) simp
  then have len: "length s1 \<le> length s2"
    by (rule frame_above_length)
  from run al loop have "s' = s2" and "res = Inr (Ref a) \<or> (\<exists>err. res = Inl err)"
    by (auto simp: generate_recommendations_store_def split: sum.splits)
  with fr1 fr2 a len show ?thesis
    by (auto intro: frame_above_trans)
qed

subsection \<open>The outcome of an operation\<close>

lemma constructed_freshI:
  assumes "frame_above (length s) s s'"
    and "\<forall>v. res = Inr v \<longrightarrow> (\<exists>a. v = Ref a \<and> length s \<le> a \<and> a < length s')"
  shows "constructed_fresh s (res, s')"
proof -
  from frame_above_start [OF assms(1)] have same: "take (length s) s' = s"
    and new: "\<forall>a. length s \<le> a \<and> a < length s' \<longrightarrow> fresh_object (length s) (s' ! a)"
    by simp_all
  have "list_all (fresh_object (length s)) (drop (length s) s')"
    unfolding list_all_length
  proof (intro allI impI)
    fix i
    assume "i < length (drop (length s) s')"
    with new show "fresh_object (length s) (drop (length s) s' ! i)"
      by simp
  qed
  with same assms(2) show ?thesis
    by (auto simp: constructed_fresh_def split: sum.splits val.splits)
qed

section \<open>Unknown items\<close>

text \<open>
  Claim C1. An item that its category's table does not have is meant to count with the
  factor 0 and never to be an error. The total-emissions computation does so, reading the
  factor with \<open>.get(item, 0)\<close>; the per-item comparison series reads it with
  \<open>factor_dict[item]\<close> and raises \<open>KeyError\<close>. At the input with the unknown item
  \<open>Unicorn: 3\<close> under livestock and the other four categories empty, the comparison
  series fails with \<open>KeyError('Unicorn')\<close>, while the totals are all 0.
\<close>

theorem C1_unknown_item:
  "plot_comparison_chart
     [(''livestock'', [(''Unicorn'', 3)]), (''crops'', []), (''fertilizer'', []), (''fuel'', []),
      (''electricity'', [])] = Inl (KeyError ''Unicorn'') \<and>
   calculate_total_emissions
     [(''livestock'', [(''Unicorn'', 3)]), (''crops'', []), (''fertilizer'', []), (''fuel'', []),
      (''electricity'', [])] =
     Inr [(''livestock'', 0), (''crops'', 0), (''fertilizer'', 0), (''fuel'', 0),
          (''electricity'', 0)]"
  by (simp add: plot_comparison_chart_def model_defs)

section \<open>Totals per category\<close>

text \<open>
  Claim C2, as amended. \<open>calculate_total_emissions\<close> returns a mapping for every
  quantity input whose category keys all belong to the five categories of the table.
  Whenever it returns, the result has exactly the category keys of the input, in the
  input's order. A category present with an empty item mapping has total exactly 0. A
  category absent from the input is absent from the result: it has no total at all,
  rather than the total 0.
\<close>

theorem C2_totals_keys:
  "(set (map fst data) \<subseteq> set categories \<longrightarrow> (\<exists>e. calculate_total_emissions data = Inr e)) \<and>
   (\<forall>e. calculate_total_emissions data = Inr e \<longrightarrow>
      map fst e = map fst data \<and>
      (\<forall>c. map_of data c = Some [] \<longrightarrow> map_of e c = Some 0) \<and>
      (\<forall>c. map_of data c = None \<longrightarrow> map_of e c = None))"
proof (intro conjI allI impI)
  assume "set (map fst data) \<subseteq> set categories"
  then show "\<exists>e. calculate_total_emissions data = Inr e"
    by (simp add: calculate_total_emissions_known)
next
  fix e
  assume e: "calculate_total_emissions data = Inr e"
  then show "map fst e = map fst data"
    by (rule calculate_total_emissions_keys)
next
  fix e c
  assume "calculate_total_emissions data = Inr e" and "map_of data c = Some []"
  then show "map_of e c = Some 0"
    by (simp add: calculate_total_emissions_Inr map_of_totals category_total_def)
next
  fix e c
  assume "calculate_total_emissions data = Inr e" and "map_of data c = None"
  then show "map_of e c = None"
    by (simp add: calculate_total_emissions_Inr map_of_totals)
qed

text \<open>
  The theorem at the input \<open>{'crops': {'Wheat': 10}, 'fuel': {}}\<close>: the result has the
  keys crops and fuel, fuel has total 0 and livestock has no total.
\<close>

theorem C2_totals_keys_witness:
  "\<exists>e. calculate_total_emissions [(''crops'', [(''Wheat'', 10)]), (''fuel'', [])] = Inr e \<and>
       map fst e = [''crops'', ''fuel''] \<and> map_of e ''fuel'' = Some 0 \<and>
       map_of e ''livestock'' = None"
proof -
  let ?d = "[(''crops'', [(''Wheat'', 10 :: rat)]), (''fuel'', [])]"
  have known: "set (map fst ?d) \<subseteq> set categories"
    by (simp add: categories_eq)
  with C2_totals_keys [of ?d] obtain e where e: "calculate_total_emissions ?d = Inr e"
    by blast
  with C2_totals_keys [of ?d] have
    "map fst e = map fst ?d"
    "\<forall>c. map_of ?d c = Some [] \<longrightarrow> map_of e c = Some 0"
    "\<forall>c. map_of ?d c = None \<longrightarrow> map_of e c = None"
    by blast+
  moreover have "map_of ?d ''fuel'' = Some []" and "map_of ?d ''livestock'' = None"
    by simp_all
  ultimately show ?thesis using e by auto
qed

text \<open>
  Claim C2 as the specification states it fails: for the input \<open>{'crops': {'Wheat': 10}}\<close>
  the result is \<open>{'crops': 6.9}\<close>, and reading the total of livestock from it raises
  \<open>KeyError\<close>; the absent category is not mapped to 0.
\<close>

theorem C2_counterexample:
  "calculate_total_emissions [(''crops'', [(''Wheat'', 10)])] = Inr [(''crops'', 6.9)] \<and>
   getitem [(''crops'', 6.9 :: rat)] ''livestock'' = Inl (KeyError ''livestock'')"
  by (simp add: model_defs)

text \<open>
  Claim C7. The computation of a category's total is linear in the quantities.
  \<open>calculate_total_emissions\<close> returns for every input whose category keys belong to
  the table, and whenever it returns, every category \<open>c\<close> of the input, with items
  \<open>items\<close>, has a total \<open>t\<close> such that: if \<open>items\<close> is the singleton \<open>{item: q}\<close>
  then \<open>t = q * factorOf(c, item)\<close>, where \<open>factorOf\<close> is the lookup with fallback 0
  (this holds for every \<open>q\<close>, so for every \<open>q \<ge> 0\<close>); if every item has quantity 0
  then \<open>t = 0\<close>; if every quantity is non-negative then \<open>t\<close> is non-negative.
\<close>

theorem C7_totals_linear:
  "(set (map fst data) \<subseteq> set categories \<longrightarrow> (\<exists>e. calculate_total_emissions data = Inr e)) \<and>
   (\<forall>e c items. calculate_total_emissions data = Inr e \<and> map_of data c = Some items \<longrightarrow>
        (\<exists>t. map_of e c = Some t \<and>
           (\<forall>item q. items = [(item, q)] \<longrightarrow>
               t = q * get_default (get_default EMISSION_FACTORS c []) item 0) \<and>
           ((\<forall>(item, q) \<in> set items. q = 0) \<longrightarrow> t = 0) \<and>
           ((\<forall>(item, q) \<in> set items. 0 \<le> q) \<longrightarrow> 0 \<le> t)))"
proof (intro conjI allI impI)
  assume "set (map fst data) \<subseteq> set categories"
  then show "\<exists>e. calculate_total_emissions data = Inr e"
    by (simp add: calculate_total_emissions_known)
next
  fix e c items
  assume "calculate_total_emissions data = Inr e \<and> map_of data c = Some items"
  then have "map_of e c = Some (category_total (get_default EMISSION_FACTORS c []) items)"
    by (simp add: calculate_total_emissions_Inr map_of_totals)
  then show "\<exists>t. map_of e c = Some t \<and>
           (\<forall>item q. items = [(item, q)] \<longrightarrow>
               t = q * get_default (get_default EMISSION_FACTORS c []) item 0) \<and>
           ((\<forall>(item, q) \<in> set items. q = 0) \<longrightarrow> t = 0) \<and>
           ((\<forall>(item, q) \<in> set items. 0 \<le> q) \<longrightarrow> 0 \<le> t)"
    by (simp add: category_total_singleton category_total_zero category_total_nonneg
        factor_nonneg)
qed

text \<open>
  The theorem at the input \<open>{'crops': {'Wheat': 10}, 'fuel': {'Gasoline': 0}}\<close>: the total
  of crops is \<open>10 * 0.69\<close> and the total of fuel is 0.
\<close>

theorem C7_totals_linear_witness:
  "\<exists>e. calculate_total_emissions
          [(''crops'', [(''Wheat'', 10)]), (''fuel'', [(''Gasoline'', 0)])] = Inr e \<and>
       map_of e ''crops'' = Some (10 * 0.69) \<and> map_of e ''fuel'' = Some 0"
proof -
  let ?d = "[(''crops'', [(''Wheat'', 10 :: rat)]), (''fuel'', [(''Gasoline'', 0)])]"
  have known: "set (map fst ?d) \<subseteq> set categories"
    by (simp add: categories_eq)
  with C7_totals_linear [of ?d] obtain e where e: "calculate_total_emissions ?d = Inr e"
    by blast
  with C7_totals_linear [of ?d] have
    tot: "\<And>c items. map_of ?d c = Some items \<Longrightarrow>
        (\<exists>t. map_of e c = Some t \<and>
           (\<forall>item q. items = [(item, q)] \<longrightarrow>
               t = q * get_default (get_default EMISSION_FACTORS c []) item 0) \<and>
           ((\<forall>(item, q) \<in> set items. q = 0) \<longrightarrow> t = 0) \<and>
           ((\<forall>(item, q) \<in> set items. 0 \<le> q) \<longrightarrow> 0 \<le> t))"
    by blast
  have "map_of ?d ''crops'' = Some [(''Wheat'', 10)]"
    by simp
  from tot [OF this] have crops: "map_of e ''crops'' = Some (10 * 0.69)"
    by (auto simp: EMISSION_FACTORS_def get_default_def)
  have "map_of ?d ''fuel'' = Some [(''Gasoline'', 0)]"
    by simp
  from tot [OF this] have fuel: "map_of e ''fuel'' = Some 0"
    by auto
  from e crops fuel show ?thesis by blast
qed

text \<open>
  Claim C8. With the table of the source, where the factor of Wheat is 0.69 and the
  factor of Urea is 1.87, the input with Wheat: 10 under crops, Urea: 5 under fertilizer
  and the other three categories empty has the totals crops = 6.9, fertilizer = 9.35 and
  livestock = fuel = electricity = 0, in exact arithmetic.
\<close>

theorem C8_example_totals:
  "get_default (get_default EMISSION_FACTORS ''crops'' []) ''Wheat'' 0 = 0.69 \<and>
   get_default (get_default EMISSION_FACTORS ''fertilizer'' []) ''Urea'' 0 = 1.87 \<and>
   calculate_total_emissions
     [(''livestock'', []), (''crops'', [(''Wheat'', 10)]), (''fertilizer'', [(''Urea'', 5)]),
      (''fuel'', []), (''electricity'', [])] =
   Inr [(''livestock'', 0), (''crops'', 6.9), (''fertilizer'', 9.35), (''fuel'', 0),
        (''electricity'', 0)]"
  by (simp add: model_defs)

section \<open>The projection\<close>

text \<open>
  Claim C3. For every base total \<open>b\<close> the projection produces two sequences of length
  10 with \<open>traditional[0] = b\<close>, \<open>reduced[0] = b * 0.8\<close> and, for every \<open>i\<close> from 1
  to 9, \<open>traditional[i] = traditional[i-1] * 1.05\<close> and
  \<open>reduced[i] = reduced[i-1] * 1.05\<close>. The projection of the base total \<open>b\<close> is
  what \<open>predict_future_emissions\<close> returns for every input whose five totals sum to
  \<open>b\<close>.
\<close>

theorem C3_projection:
  "length (traditional (project b)) = 10 \<and> length (reduced (project b)) = 10 \<and>
   traditional (project b) ! 0 = b \<and> reduced (project b) ! 0 = b * 0.8 \<and>
   (\<forall>i. 1 \<le> i \<and> i \<le> 9 \<longrightarrow>
      traditional (project b) ! i = traditional (project b) ! (i - 1) * 1.05 \<and>
      reduced (project b) ! i = reduced (project b) ! (i - 1) * 1.05) \<and>
   (\<forall>data e. calculate_total_emissions data = Inr e \<and> base_total e = Inr b \<longrightarrow>
      predict_future_emissions data = Inr (project b))"
proof -
  have "length (traditional (project b)) = 10" "length (reduced (project b)) = 10"
    by (simp_all add: project_eq grow_length)
  moreover have "traditional (project b) ! 0 = b" "reduced (project b) ! 0 = b * 0.8"
    by (simp_all add: project_eq grow_nth_old_fst grow_nth_old_snd)
  moreover have "traditional (project b) ! i = traditional (project b) ! (i - 1) * 1.05"
    if "1 \<le> i \<and> i \<le> 9" for i
    using that grow_step_fst [of "[b]" i 9 "[b * 0.8]"] by (simp add: project_eq)
  moreover have "reduced (project b) ! i = reduced (project b) ! (i - 1) * 1.05"
    if "1 \<le> i \<and> i \<le> 9" for i
    using that grow_step_snd [of "[b * 0.8]" i 9 "[b]"] by (simp add: project_eq)
  moreover have "predict_future_emissions data = Inr (project b)"
    if "calculate_total_emissions data = Inr e \<and> base_total e = Inr b" for data e
    using that by (simp add: predict_future_emissions_def)
  ultimately show ?thesis by blast
qed

text \<open>
  The theorem at the base total 198, the base total of the input with Beef Cow: 2 under
  livestock and the other four categories empty: the series start at 198 and at
  \<open>198 * 0.8\<close>, the value of the third year is 1.05 times the value of the second, and
  the projection of the input is the projection of 198.
\<close>

theorem C3_projection_witness:
  "traditional (project 198) ! 0 = 198 \<and> reduced (project 198) ! 0 = 198 * 0.8 \<and>
   traditional (project 198) ! 2 = traditional (project 198) ! 1 * 1.05 \<and>
   reduced (project 198) ! 2 = reduced (project 198) ! 1 * 1.05 \<and>
   length (traditional (project 198)) = 10 \<and> length (reduced (project 198)) = 10 \<and>
   predict_future_emissions
     [(''livestock'', [(''Beef Cow'', 2)]), (''crops'', []), (''fertilizer'', []), (''fuel'', []),
      (''electricity'', [])] = Inr (project 198)"
proof -
  let ?d = "[(''livestock'', [(''Beef Cow'', 2 :: rat)]), (''crops'', []), (''fertilizer'', []),
      (''fuel'', []), (''electricity'', [])]"
  let ?e = "[(''livestock'', 198 :: rat), (''crops'', 0), (''fertilizer'', 0), (''fuel'', 0),
      (''electricity'', 0)]"
  have totals: "calculate_total_emissions ?d = Inr ?e"
    by (simp add: model_defs)
  have base: "base_total ?e = Inr 198"
    by (simp add: base_total_def getitem_def)
  from C3_projection [of 198] totals base
  have "predict_future_emissions ?d = Inr (project 198)"
    by blast
  moreover from C3_projection [of 198]
  have "traditional (project 198) ! 0 = 198 \<and> reduced (project 198) ! 0 = 198 * 0.8 \<and>
   traditional (project 198) ! 2 = traditional (project 198) ! 1 * 1.05 \<and>
   reduced (project 198) ! 2 = reduced (project 198) ! 1 * 1.05 \<and>
   length (traditional (project 198)) = 10 \<and> length (reduced (project 198)) = 10"
    by auto
  ultimately show ?thesis by blast
qed

text \<open>
  Claim C6. Whenever the projection of an input exists, the value of its traditional
  series at year 0 is the sum of the five category totals that
  \<open>calculate_total_emissions\<close> returns for the same input (livestock + crops +
  fertilizer + fuel + electricity); and the projection exists for every input whose
  category keys are the five categories.
\<close>

theorem C6_base_is_grand_sum:
  "(\<forall>r. predict_future_emissions data = Inr r \<longrightarrow>
      (\<exists>e l c f u el. calculate_total_emissions data = Inr e \<and>
         getitem e ''livestock'' = Inr l \<and> getitem e ''crops'' = Inr c \<and>
         getitem e ''fertilizer'' = Inr f \<and> getitem e ''fuel'' = Inr u \<and>
         getitem e ''electricity'' = Inr el \<and>
         traditional r ! 0 = l + c + f + u + el)) \<and>
   (set (map fst data) = set categories \<longrightarrow> (\<exists>r. predict_future_emissions data = Inr r))"
proof (intro conjI allI impI)
  fix r
  assume "predict_future_emissions data = Inr r"
  then obtain e b where e: "calculate_total_emissions data = Inr e"
    and b: "base_total e = Inr b" and r: "r = project b"
    by (auto simp: predict_future_emissions_Inr)
  from b obtain l c f u el where
    "getitem e ''livestock'' = Inr l" "getitem e ''crops'' = Inr c"
    "getitem e ''fertilizer'' = Inr f" "getitem e ''fuel'' = Inr u"
    "getitem e ''electricity'' = Inr el" "b = l + c + f + u + el"
    by (auto simp: base_total_Inr getitem_Inr_iff)
  with e r show "\<exists>e l c f u el. calculate_total_emissions data = Inr e \<and>
         getitem e ''livestock'' = Inr l \<and> getitem e ''crops'' = Inr c \<and>
         getitem e ''fertilizer'' = Inr f \<and> getitem e ''fuel'' = Inr u \<and>
         getitem e ''electricity'' = Inr el \<and>
         traditional r ! 0 = l + c + f + u + el"
    by (auto simp: project_base)
next
  assume "set (map fst data) = set categories"
  then show "\<exists>r. predict_future_emissions data = Inr r"
    by (rule predict_future_emissions_five)
qed

text \<open>
  The theorem at the input with Beef Cow: 2 under livestock, Wheat: 10 under crops and
  the other three categories empty: the projection exists and starts at \<open>198 + 6.9\<close>.
\<close>

theorem C6_base_is_grand_sum_witness:
  "\<exists>r. predict_future_emissions
          [(''livestock'', [(''Beef Cow'', 2)]), (''crops'', [(''Wheat'', 10)]),
           (''fertilizer'', []), (''fuel'', []), (''electricity'', [])] = Inr r \<and>
       traditional r ! 0 = 198 + 6.9"
proof -
  let ?d = "[(''livestock'', [(''Beef Cow'', 2 :: rat)]), (''crops'', [(''Wheat'', 10)]),
           (''fertilizer'', []), (''fuel'', []), (''electricity'', [])]"
  have keys: "set (map fst ?d) = set categories"
    by (simp add: categories_eq)
  have totals: "calculate_total_emissions ?d =
      Inr [(''livestock'', 198), (''crops'', 6.9), (''fertilizer'', 0), (''fuel'', 0),
           (''electricity'', 0)]"
    by (simp add: model_defs)
  from C6_base_is_grand_sum [of ?d] keys obtain r where
    r: "predict_future_emissions ?d = Inr r"
    by blast
  with C6_base_is_grand_sum [of ?d] obtain e l c f u el where
    "calculate_total_emissions ?d = Inr e"
    "getitem e ''livestock'' = Inr l" "getitem e ''crops'' = Inr c"
    "getitem e ''fertilizer'' = Inr f" "getitem e ''fuel'' = Inr u"
    "getitem e ''electricity'' = Inr el"
    "traditional r ! 0 = l + c + f + u + el"
    by blast
  with totals have "traditional r ! 0 = 198 + 6.9"
    by (auto simp: getitem_def)
  with r show ?thesis by blast
qed

text \<open>
  Claim C9. The decade projection is defined only when the quantity input has all five
  category keys. An input that misses one of the five categories makes
  \<open>predict_future_emissions\<close> fail with a \<open>KeyError\<close>; the missing category is not
  counted as zero. The projection returns a result exactly when the totals can be
  computed and the input has all five category keys. Once the totals have been computed,
  the subscripts that read the five totals raise \<open>KeyError\<close>, for a category key that
  the input does not have, exactly when some category is absent from the input.
\<close>

theorem C9_projection_needs_all_categories:
  "(\<not> set categories \<subseteq> set (map fst data) \<longrightarrow>
      (\<exists>k. predict_future_emissions data = Inl (KeyError k))) \<and>
   ((\<exists>r. predict_future_emissions data = Inr r) \<longleftrightarrow>
      (\<exists>e. calculate_total_emissions data = Inr e) \<and> set categories \<subseteq> set (map fst data)) \<and>
   (\<forall>e. calculate_total_emissions data = Inr e \<longrightarrow>
      ((\<exists>k. base_total e = Inl (KeyError k) \<and> predict_future_emissions data = Inl (KeyError k) \<and>
            k \<in> set categories \<and> k \<notin> set (map fst data))
        \<longleftrightarrow> \<not> set categories \<subseteq> set (map fst data)))"
proof (intro conjI allI impI)
  assume missing: "\<not> set categories \<subseteq> set (map fst data)"
  then have "\<not> (\<exists>r. predict_future_emissions data = Inr r)"
    by (auto simp: predict_future_emissions_defined)
  then obtain err where "predict_future_emissions data = Inl err"
    by (cases "predict_future_emissions data") auto
  then show "\<exists>k. predict_future_emissions data = Inl (KeyError k)"
    by (cases err) auto
next
  show "(\<exists>r. predict_future_emissions data = Inr r) \<longleftrightarrow>
      (\<exists>e. calculate_total_emissions data = Inr e) \<and> set categories \<subseteq> set (map fst data)"
    unfolding predict_future_emissions_defined calculate_total_emissions_defined by blast
next
  fix e
  assume e: "calculate_total_emissions data = Inr e"
  then have keys: "map fst e = map fst data"
    by (rule calculate_total_emissions_keys)
  show "(\<exists>k. base_total e = Inl (KeyError k) \<and> predict_future_emissions data = Inl (KeyError k) \<and>
            k \<in> set categories \<and> k \<notin> set (map fst data))
        \<longleftrightarrow> \<not> set categories \<subseteq> set (map fst data)"
  proof
    assume "\<exists>k. base_total e = Inl (KeyError k) \<and>
        predict_future_emissions data = Inl (KeyError k) \<and>
        k \<in> set categories \<and> k \<notin> set (map fst data)"
    then show "\<not> set categories \<subseteq> set (map fst data)" by blast
  next
    assume "\<not> set categories \<subseteq> set (map fst data)"
    with keys have "\<not> (\<exists>b. base_total e = Inr b)"
      by (simp add: base_total_defined)
    with base_total_cases [of e] obtain k where
      k: "k \<in> set categories" "map_of e k = None" "base_total e = Inl (KeyError k)"
      by blast
    from k(2) keys have "k \<notin> set (map fst data)"
      by (metis map_of_eq_None_iff set_map)
    moreover from e k(3) have "predict_future_emissions data = Inl (KeyError k)"
      by (simp add: predict_future_emissions_def)
    ultimately show "\<exists>k. base_total e = Inl (KeyError k) \<and>
        predict_future_emissions data = Inl (KeyError k) \<and>
        k \<in> set categories \<and> k \<notin> set (map fst data)"
      using k by blast
  qed
qed

text \<open>
  The theorem at the input \<open>{'livestock': {'Beef Cow': 2}, 'fuel': {}}\<close>: the totals are
  computed, and the projection fails at the first missing category, crops.
\<close>

theorem C9_projection_needs_all_categories_witness:
  "predict_future_emissions [(''livestock'', [(''Beef Cow'', 2)]), (''fuel'', [])] =
     Inl (KeyError ''crops'')"
proof -
  let ?d = "[(''livestock'', [(''Beef Cow'', 2 :: rat)]), (''fuel'', [])]"
  have totals: "calculate_total_emissions ?d = Inr [(''livestock'', 198), (''fuel'', 0)]"
    by (simp add: model_defs)
  have missing: "\<not> set categories \<subseteq> set (map fst ?d)"
    by (simp add: categories_eq)
  from C9_projection_needs_all_categories [of ?d] totals missing obtain k where
    k: "base_total [(''livestock'', 198), (''fuel'', 0)] = Inl (KeyError k)"
       "predict_future_emissions ?d = Inl (KeyError k)"
    by blast
  from k(1) have "k = ''crops''"
    by (simp add: base_total_def getitem_def)
  with k(2) show ?thesis by simp
qed

section \<open>Recommendations\<close>

text \<open>
  Claim C4, as amended. For every quantity input, \<open>generate_recommendations\<close> emits,
  for each of the five categories in the order of the source that is present with a
  non-empty item mapping, the header line of the category followed by exactly one
  recommendation line per item with a positive quantity, in the order of the items and
  without deduplication; no other lines are emitted. For fertilizer, fuel and electricity
  the line is the same fixed string for every item; for livestock and crops the line is
  the category's fixed template with the name of the item inserted, so the lines of
  different items differ.
\<close>

theorem C4_recommendation_lines:
  "generate_recommendations data = concat (map (category_lines data) recommendation_blocks) \<and>
   (\<forall>(key, header, line) \<in> set recommendation_blocks.
      (key \<in> {''fertilizer'', ''fuel'', ''electricity''} \<longrightarrow> (\<forall>i j. line i = line j)) \<and>
      (key \<in> {''livestock'', ''crops''} \<longrightarrow> (\<forall>i j. line i = line j \<longrightarrow> i = j)))"
  by (rule conjI [OF generate_recommendations_eq lines_shape])

text \<open>
  The theorem at the input \<open>{'fertilizer': {'Urea': 5, 'Lime': 0, 'Gypsum': 2}}\<close>: the
  header and two identical lines, one for Urea and one for Gypsum.
\<close>

theorem C4_recommendation_lines_witness:
  "generate_recommendations [(''fertilizer'', [(''Urea'', 5), (''Lime'', 0), (''Gypsum'', 2)])] =
     [''### Recommendations for Fertilizers'',
      ''- Use fertilizers like Organic Compost or Filter Cake to reduce emissions compared to conventional options.'',
      ''- Use fertilizers like Organic Compost or Filter Cake to reduce emissions compared to conventional options.'']"
proof -
  let ?d = "[(''fertilizer'', [(''Urea'', 5 :: rat), (''Lime'', 0), (''Gypsum'', 2)])]"
  from C4_recommendation_lines [of ?d]
  have "generate_recommendations ?d = concat (map (category_lines ?d) recommendation_blocks)"
    by (rule conjunct1)
  then show ?thesis
    by (simp add: category_lines_def recommendation_blocks_def)
qed

text \<open>
  Claim C4 as the specification states it fails: for the input
  \<open>{'livestock': {'Beef Cow': 1, 'Chicken': 2}}\<close> there are two items with a positive
  quantity and three lines; the first is the header, and the other two differ, since each
  names its animal.
\<close>

theorem C4_counterexample:
  "generate_recommendations [(''livestock'', [(''Beef Cow'', 1), (''Chicken'', 2)])] =
     [''### Recommendations for Livestock'',
      ''- Consider improving feed efficiency and manure management for Beef Cow. This can help reduce methane emissions.'',
      ''- Consider improving feed efficiency and manure management for Chicken. This can help reduce methane emissions.'']"
  by (simp add: generate_recommendations_def recommendation_blocks_def recommend_category_def
      contains_def get_default_def)

text \<open>
  Claim C5, as amended. For every quantity input and each of the five categories: the
  header line of the category is emitted exactly when the category is present with a
  non-empty item mapping, also when all its quantities are 0; a recommendation line of the
  category is emitted exactly when the category has at least one item with a positive
  quantity. So an absent category and a category with an empty item mapping produce no
  line at all, and a category whose items all have quantity 0 produces its header only.
\<close>

theorem C5_category_output:
  "\<forall>(key, header, line) \<in> set recommendation_blocks.
     (header \<in> set (generate_recommendations data) \<longleftrightarrow>
        (\<exists>items. map_of data key = Some items \<and> items \<noteq> [])) \<and>
     ((\<exists>item. line item \<in> set (generate_recommendations data)) \<longleftrightarrow>
        (\<exists>items. map_of data key = Some items \<and>
           (\<exists>(item, quantity) \<in> set items. quantity > 0)))"
proof (intro ballI)
  fix block
  assume block: "block \<in> set recommendation_blocks"
  obtain key header line where eq: "block = (key, header, line)"
    by (cases block)
  from block header_emitted [of key header line data] line_emitted [of key header line data]
  show "case block of (key, header, line) \<Rightarrow>
     (header \<in> set (generate_recommendations data) \<longleftrightarrow>
        (\<exists>items. map_of data key = Some items \<and> items \<noteq> [])) \<and>
     ((\<exists>item. line item \<in> set (generate_recommendations data)) \<longleftrightarrow>
        (\<exists>items. map_of data key = Some items \<and>
           (\<exists>(item, quantity) \<in> set items. quantity > 0)))"
    unfolding eq by simp
qed

text \<open>
  The theorem at the input \<open>{'livestock': {'Beef Cow': 0}, 'crops': {}}\<close>: the header of
  livestock is emitted and no livestock line is; the headers of crops (empty) and of fuel
  (absent) are not emitted.
\<close>

theorem C5_category_output_witness:
  "''### Recommendations for Livestock'' \<in>
     set (generate_recommendations [(''livestock'', [(''Beef Cow'', 0)]), (''crops'', [])]) \<and>
   \<not> (\<exists>animal. ''- Consider improving feed efficiency and manure management for '' @ animal
                 @ ''. This can help reduce methane emissions.'' \<in>
     set (generate_recommendations [(''livestock'', [(''Beef Cow'', 0)]), (''crops'', [])])) \<and>
   ''### Recommendations for Crops'' \<notin>
     set (generate_recommendations [(''livestock'', [(''Beef Cow'', 0)]), (''crops'', [])]) \<and>
   ''### Recommendations for Fuel'' \<notin>
     set (generate_recommendations [(''livestock'', [(''Beef Cow'', 0)]), (''crops'', [])])"
proof -
  let ?d = "[(''livestock'', [(''Beef Cow'', 0 :: rat)]), (''crops'', [])]"
  have livestock: "(''livestock'', ''### Recommendations for Livestock'',
      \<lambda>animal. ''- Consider improving feed efficiency and manure management for '' @ animal
                 @ ''. This can help reduce methane emissions.'') \<in> set recommendation_blocks"
    by (simp add: recommendation_blocks_def)
  have crops: "(''crops'', ''### Recommendations for Crops'',
        \<lambda>crop. ''- Optimize fertilizer use and adopt precision agriculture techniques for ''
               @ crop @ '' to minimize emissions.'') \<in> set recommendation_blocks"
    by (simp add: recommendation_blocks_def)
  have fuel: "(''fuel'', ''### Recommendations for Fuel'',
        \<lambda>fuel. ''- Switch to cleaner fuels like Biodiesel or reduce reliance on Diesel Oil to lower emissions.'') \<in> set recommendation_blocks"
    by (simp add: recommendation_blocks_def)
  from bspec [OF C5_category_output [of ?d] livestock]
  have "''### Recommendations for Livestock'' \<in> set (generate_recommendations ?d)"
    and "\<not> (\<exists>animal. ''- Consider improving feed efficiency and manure management for '' @ animal
                 @ ''. This can help reduce methane emissions.'' \<in>
          set (generate_recommendations ?d))"
    by simp_all
  moreover from bspec [OF C5_category_output [of ?d] crops]
  have "''### Recommendations for Crops'' \<notin> set (generate_recommendations ?d)"
    by simp
  moreover from bspec [OF C5_category_output [of ?d] fuel]
  have "''### Recommendations for Fuel'' \<notin> set (generate_recommendations ?d)"
    by simp
  ultimately show ?thesis by blast
qed

text \<open>
  Claim C5 as the specification states it fails: for the input
  \<open>{'livestock': {'Beef Cow': 0}}\<close>, where every item of livestock has quantity 0, the
  header of livestock is emitted.
\<close>

theorem C5_counterexample:
  "generate_recommendations [(''livestock'', [(''Beef Cow'', 0)])] =
     [''### Recommendations for Livestock'']"
  by (simp add: generate_recommendations_def recommendation_blocks_def recommend_category_def
      contains_def get_default_def)

section \<open>Effects on the arguments\<close>

text \<open>
  Claim C10. Every core operation leaves the quantity input it is given and the global
  emission factor table unchanged, and its result is freshly constructed. On the store
  of objects: the per-item calculation returns the store as it found it (its result is a
  number); the total-emissions computation, the decade projection and the recommendation
  generation, run in any store with any table address and any argument, leave every
  object of that store as it was, so the input mapping, its item mappings and the table
  are the same before and after; the objects they create hold only immutable values and
  references to objects they created; and the value they return refers to an object they
  created. This holds also when the operation raises.
\<close>

theorem C10_operations_frame:
  "snd (calculate_emissions_store quantity factor s) = s \<and>
   constructed_fresh s (calculate_total_emissions_store table data s) \<and>
   constructed_fresh s (predict_future_emissions_store table data s) \<and>
   constructed_fresh s (generate_recommendations_store data s)"
proof (intro conjI)
  show "snd (calculate_emissions_store quantity factor s) = s"
    by (cases "calculate_emissions_store quantity factor s")
      (simp add: calculate_emissions_store_same)
next
  obtain res s' where run: "calculate_total_emissions_store table data s = (res, s')"
    by (cases "calculate_total_emissions_store table data s")
  from calculate_total_emissions_store_frame [OF run order_refl]
  show "constructed_fresh s (calculate_total_emissions_store table data s)"
    unfolding run by (intro constructed_freshI) simp_all
next
  obtain res s' where run: "predict_future_emissions_store table data s = (res, s')"
    by (cases "predict_future_emissions_store table data s")
  from predict_future_emissions_store_frame [OF run order_refl]
  show "constructed_fresh s (predict_future_emissions_store table data s)"
    unfolding run by (intro constructed_freshI) simp_all
next
  obtain res s' where run: "generate_recommendations_store data s = (res, s')"
    by (cases "generate_recommendations_store data s")
  from generate_recommendations_store_frame [OF run order_refl]
  show "constructed_fresh s (generate_recommendations_store data s)"
    unfolding run by (intro constructed_freshI) simp_all
qed

text \<open>
  The theorem in the example store, with the table at address 5 and the quantity input
  at address 11: the totals and the recommendations are new objects at address 12, the
  twelve objects before them are unchanged, and the results are the ones of the
  functions on values.
\<close>

theorem C10_operations_frame_witness:
  "constructed_fresh example_store
     (calculate_total_emissions_store 5 (Ref 11) example_store) \<and>
   constructed_fresh example_store (generate_recommendations_store (Ref 11) example_store) \<and>
   calculate_total_emissions_store 5 (Ref 11) example_store =
     (Inr (Ref 12),
      example_store @
        [Dict [(''livestock'', Num 198), (''crops'', Num 0), (''fertilizer'', Num 0),
               (''fuel'', Num 0), (''electricity'', Num 0)]]) \<and>
   generate_recommendations_store (Ref 11) example_store =
     (Inr (Ref 12),
      example_store @
        [List [Str ''### Recommendations for Livestock'',
               Str ''- Consider improving feed efficiency and manure management for Beef Cow. This can help reduce methane emissions.'',
               Str ''### Recommendations for Fuel'']])"
proof -
  note frame = C10_operations_frame [of "Num 0" "Num 0" example_store 5 "Ref 11"]
  from frame have "constructed_fresh example_store
     (calculate_total_emissions_store 5 (Ref 11) example_store)"
    by (elim conjE)
  moreover from frame
  have "constructed_fresh example_store (generate_recommendations_store (Ref 11) example_store)"
    by (elim conjE)
  moreover have "calculate_total_emissions_store 5 (Ref 11) example_store =
     (Inr (Ref 12),
      example_store @
        [Dict [(''livestock'', Num 198), (''crops'', Num 0), (''fertilizer'', Num 0),
               (''fuel'', Num 0), (''electricity'', Num 0)]])"
    by code_simp
  moreover have "generate_recommendations_store (Ref 11) example_store =
     (Inr (Ref 12),
      example_store @
        [List [Str ''### Recommendations for Livestock'',
               Str ''- Consider improving feed efficiency and manure management for Beef Cow. This can help reduce methane emissions.'',
               Str ''### Recommendations for Fuel'']])"
    by code_simp
  ultimately show ?thesis
    by (intro conjI)
qed

end
